theory Spec2Isabelle
  imports Complex_Main "HOL-Library.List_Lexorder" "HOL-Library.AList" "HOL-Library.Sublist"
begin

section \<open>Python values\<close>

text \<open>
  A Python \<^verbatim>\<open>str\<close> is a sequence of Unicode code points, so it is modelled as a list of
  natural numbers; \<open>ascii\<close> turns an ASCII literal into that form. The order of
  \<^verbatim>\<open>HOL-Library.List_Lexorder\<close> on such lists is the order Python's \<^verbatim>\<open>sorted\<close>
  uses on strings. The messages of \<^verbatim>\<open>extern/wechat.py\<close> that are not ASCII are given by
  their code points.
\<close>

type_synonym pystr = "nat list"

definition ascii :: "string \<Rightarrow> pystr" where
  "ascii s = map of_char s"

text \<open>
  The values \<^verbatim>\<open>json\<close> decoding produces, which are also the values a payload is built
  from. A float is given by its exact value, \<open>None\<close> standing for the three floats
  that are not finite. A \<^verbatim>\<open>dict\<close> is an association list in insertion order, read
  with \<open>map_of\<close>.
\<close>

datatype pyval =
    PNone
  | PBool bool
  | PInt int
  | PFloat "rat option"
  | PStr pystr
  | PList "pyval list"
  | PDict "(pystr \<times> pyval) list"

datatype exn =
    KeyError | TypeError | IndexError | AttributeError | AssertionError
  | ValueError | OverflowError | LibraryError

text \<open>Sequencing of statements that may raise: the first exception ends the block.\<close>

definition and_then :: "exn + 'a \<Rightarrow> ('a \<Rightarrow> exn + 'b) \<Rightarrow> exn + 'b" where
  "and_then m f = (case m of Inl e \<Rightarrow> Inl e | Inr x \<Rightarrow> f x)"

text \<open>Truth value of \<^verbatim>\<open>if v:\<close>.\<close>

fun truthy :: "pyval \<Rightarrow> bool" where
  "truthy PNone = False"
| "truthy (PBool b) = b"
| "truthy (PInt i) = (i \<noteq> 0)"
| "truthy (PFloat f) = (f \<noteq> Some 0)"
| "truthy (PStr s) = (s \<noteq> [])"
| "truthy (PList xs) = (xs \<noteq> [])"
| "truthy (PDict kvs) = (kvs \<noteq> [])"

text \<open>\<^verbatim>\<open>v == n\<close> for an integer \<open>n\<close>: numbers compare by value, \<^verbatim>\<open>True\<close> is 1.\<close>

fun eq_int :: "pyval \<Rightarrow> int \<Rightarrow> bool" where
  "eq_int (PInt i) n = (i = n)"
| "eq_int (PBool b) n = ((if b then 1 else 0) = n)"
| "eq_int (PFloat f) n = (f = Some (of_int n))"
| "eq_int PNone n = False"
| "eq_int (PStr s) n = False"
| "eq_int (PList xs) n = False"
| "eq_int (PDict kvs) n = False"

text \<open>\<^verbatim>\<open>v[k]\<close> for a string key, \<^verbatim>\<open>v.get(k)\<close>, \<^verbatim>\<open>v[i]\<close> for an index \<open>i \<ge> 0\<close>, and the
  elements \<^verbatim>\<open>for x in v\<close> visits. The keys of a decoded object are strings, so an
  integer is never one of them.\<close>

fun getitem_str :: "pyval \<Rightarrow> pystr \<Rightarrow> exn + pyval" where
  "getitem_str (PDict kvs) k = (case map_of kvs k of None \<Rightarrow> Inl KeyError | Some v \<Rightarrow> Inr v)"
| "getitem_str PNone k = Inl TypeError"
| "getitem_str (PBool b) k = Inl TypeError"
| "getitem_str (PInt i) k = Inl TypeError"
| "getitem_str (PFloat f) k = Inl TypeError"
| "getitem_str (PStr s) k = Inl TypeError"
| "getitem_str (PList xs) k = Inl TypeError"

fun get_str :: "pyval \<Rightarrow> pystr \<Rightarrow> exn + pyval" where
  "get_str (PDict kvs) k = Inr (case map_of kvs k of None \<Rightarrow> PNone | Some v \<Rightarrow> v)"
| "get_str PNone k = Inl AttributeError"
| "get_str (PBool b) k = Inl AttributeError"
| "get_str (PInt i) k = Inl AttributeError"
| "get_str (PFloat f) k = Inl AttributeError"
| "get_str (PStr s) k = Inl AttributeError"
| "get_str (PList xs) k = Inl AttributeError"

fun getitem_int :: "pyval \<Rightarrow> nat \<Rightarrow> exn + pyval" where
  "getitem_int (PList xs) i = (if i < length xs then Inr (xs ! i) else Inl IndexError)"
| "getitem_int (PStr s) i = (if i < length s then Inr (PStr [s ! i]) else Inl IndexError)"
| "getitem_int (PDict kvs) i = Inl KeyError"
| "getitem_int PNone i = Inl TypeError"
| "getitem_int (PBool b) i = Inl TypeError"
| "getitem_int (PInt n) i = Inl TypeError"
| "getitem_int (PFloat f) i = Inl TypeError"

fun iterate :: "pyval \<Rightarrow> exn + pyval list" where
  "iterate (PList xs) = Inr xs"
| "iterate (PStr s) = Inr (map (\<lambda>c. PStr [c]) s)"
| "iterate (PDict kvs) = Inr (map (\<lambda>kv. PStr (fst kv)) kvs)"
| "iterate PNone = Inl TypeError"
| "iterate (PBool b) = Inl TypeError"
| "iterate (PInt n) = Inl TypeError"
| "iterate (PFloat f) = Inl TypeError"

text \<open>A list comprehension \<^verbatim>\<open>[f(x) for x in xs]\<close>: it raises at the first element
  where \<open>f\<close> raises.\<close>

fun collect :: "('a \<Rightarrow> exn + 'b) \<Rightarrow> 'a list \<Rightarrow> exn + 'b list" where
  "collect f [] = Inr []"
| "collect f (x # xs) =
     and_then (f x) (\<lambda>y. and_then (collect f xs) (\<lambda>ys. Inr (y # ys)))"

text \<open>\<^verbatim>\<open>str(i)\<close> for an integer: decimal digits, with a minus sign when negative.\<close>

fun digits :: "nat \<Rightarrow> pystr" where
  "digits n = (if n < 10 then [48 + n] else digits (n div 10) @ [48 + n mod 10])"

definition str_int :: "int \<Rightarrow> pystr" where
  "str_int i = (if i < 0 then 45 # digits (nat (- i)) else digits (nat i))"

text \<open>\<^verbatim>\<open>sep.join(items)\<close>: a \<^verbatim>\<open>TypeError\<close> when an item is not a string.\<close>

fun join :: "pystr \<Rightarrow> pyval list \<Rightarrow> exn + pystr" where
  "join sep [] = Inr []"
| "join sep [PStr s] = Inr s"
| "join sep (PStr s # y # ys) = and_then (join sep (y # ys)) (\<lambda>r. Inr (s @ sep @ r))"
| "join sep (x # ys) = Inl TypeError"

declare digits.simps [simp del]

section \<open>Configuration, environment and observable effects\<close>

text \<open>
  \<^verbatim>\<open>extern.config.wechat_config\<close> is read-only configuration: the fields
  \<^verbatim>\<open>extern/wechat.py\<close> reads. \<open>receivers\<close> is \<^verbatim>\<open>None\<close> or a set; \<open>hasher_encode\<close> is
  \<^verbatim>\<open>CONFIG.hasher.encode\<close>.
\<close>

record config =
  api_url :: pystr
  timeout :: rat
  send_batch :: int
  multithread :: bool
  retry :: bool
  receivers :: "pystr set option"
  blacklist :: "pystr set"
  hasher_encode :: "pystr \<Rightarrow> pyval"

record request =
  req_url :: pystr
  req_body :: pystr
  req_timeout :: rat

text \<open>
  The library calls the module makes. \<open>json_dumps\<close> is \<^verbatim>\<open>json.dumps\<close>;
  \<open>requests_post\<close> answers a request, given the requests posted before it, with the
  text of the response; \<open>response_json\<close> is the response's \<^verbatim>\<open>.json()\<close>. Each may
  raise. \<open>build_full_url\<close> is \<^verbatim>\<open>utils.http.utils.build_full_url\<close> with its optional
  base, and \<open>now\<close> gives \<^verbatim>\<open>datetime.now()\<close> at its successive readings.
\<close>

record env =
  json_dumps :: "pyval \<Rightarrow> exn + pystr"
  requests_post :: "request list \<Rightarrow> request \<Rightarrow> exn + pystr"
  response_json :: "pystr \<Rightarrow> exn + pyval"
  build_full_url :: "pystr \<Rightarrow> pystr option \<Rightarrow> pystr"
  now :: "nat \<Rightarrow> int"

type_synonym parse_result = "pyval \<times> pyval list option"

text \<open>
  What the logger receives: the level and which message of the module it is, with the
  values formatted into it (listings as \<^verbatim>\<open>_log_users\<close> returned them, the error message
  as the value it is).
\<close>

datatype log_entry =
    Info_sent pystr
  | Warning_failed pystr pyval
  | Warning_partial pystr pystr pyval
  | Warning_no_users

text \<open>
  The effects of the sender on the outside: the requests posted and the log, in order.
  \<open>calls\<close> lists the calls of \<^verbatim>\<open>_post_and_parse\<close> so far, each with the payload it was
  given and the result it returned.
\<close>

record world =
  posts :: "request list"
  logs :: "log_entry list"
  calls :: "(pyval \<times> parse_result) list"

section \<open>The user filter\<close>

datatype ident = IdStr pystr | IdInt int

fun str :: "ident \<Rightarrow> pystr" where
  "str (IdStr s) = s"
| "str (IdInt i) = str_int i"

definition priv_get_available_users :: "config \<Rightarrow> ident list \<Rightarrow> pystr list" where
  "priv_get_available_users cfg users =
     (let u0 = set (map str users);
          u1 = (case receivers cfg of None \<Rightarrow> u0 | Some r \<Rightarrow> u0 \<inter> r);
          u2 = (if blacklist cfg \<noteq> {} then u1 - blacklist cfg else u1)
      in sorted_list_of_set u2)"

section \<open>The request/response interpreter\<close>

definition msg_encode_failed :: pystr where
  "msg_encode_failed = ascii ''JSON'' @ [0x7F16, 0x7801, 0x5931, 0x8D25]"

definition msg_connect_failed :: pystr where
  "msg_connect_failed = [0x8FDE, 0x63A5] @ ascii ''API'' @ [0x5931, 0x8D25]"

definition msg_decode_failed :: pystr where
  "msg_decode_failed = ascii ''JSON'' @ [0x89E3, 0x6790, 0x5931, 0x8D25]"

definition msg_parse_failed :: pystr where
  "msg_parse_failed = [0x56DE, 0x5E94, 0x89E3, 0x6790, 0x5931, 0x8D25]"

text \<open>The body of the last \<^verbatim>\<open>try\<close> of \<^verbatim>\<open>_post_and_parse\<close> (lines 97 to 104).\<close>

definition interpret_response ::
  "pyval \<Rightarrow> (pyval \<Rightarrow> exn + parse_result) option \<Rightarrow> exn + parse_result" where
  "interpret_response response detail_parser =
     and_then (getitem_str response (ascii ''status'')) (\<lambda>status.
       if eq_int status 200 then Inr (PNone, Some [])
       else and_then (getitem_str response (ascii ''data'')) (\<lambda>datas.
         and_then (get_str datas (ascii ''detail'')) (\<lambda>detail.
           if truthy detail then
             (case detail_parser of
                None \<Rightarrow> Inl AssertionError
              | Some p \<Rightarrow> and_then (getitem_str datas (ascii ''detail'')) p)
           else and_then (getitem_str datas (ascii ''errMsg'')) (\<lambda>errmsg.
             Inr (errmsg, None)))))"

text \<open>
  \<^verbatim>\<open>_post_and_parse\<close>: four \<^verbatim>\<open>try\<close> blocks, each with a bare \<^verbatim>\<open>except\<close> that returns
  its own message. The request counts as posted once \<^verbatim>\<open>requests.post\<close> is called, and
  \<open>returned\<close> enters the call and its result in \<open>calls\<close>.
\<close>

definition returned :: "parse_result \<Rightarrow> pyval \<Rightarrow> world \<Rightarrow> (exn + parse_result) \<times> world" where
  "returned r post_data w = (Inr r, w\<lparr>calls := calls w @ [(post_data, r)]\<rparr>)"

definition priv_post_and_parse ::
  "env \<Rightarrow> pystr \<Rightarrow> pyval \<Rightarrow> rat \<Rightarrow> (pyval \<Rightarrow> exn + parse_result) option
     \<Rightarrow> world \<Rightarrow> (exn + parse_result) \<times> world" where
  "priv_post_and_parse e post_url post_data tmo detail_parser w =
     (case json_dumps e post_data of
        Inl x \<Rightarrow> returned (PStr msg_encode_failed, None) post_data w
      | Inr body \<Rightarrow>
          (let rq = \<lparr>req_url = post_url, req_body = body, req_timeout = tmo\<rparr>;
               w1 = w\<lparr>posts := posts w @ [rq]\<rparr>
           in (case requests_post e (posts w) rq of
                 Inl x \<Rightarrow> returned (PStr msg_connect_failed, None) post_data w1
               | Inr raw_response \<Rightarrow>
                   (case response_json e raw_response of
                      Inl x \<Rightarrow> returned (PStr msg_decode_failed, None) post_data w1
                    | Inr response \<Rightarrow>
                        (case interpret_response response detail_parser of
                           Inl x \<Rightarrow> returned (PStr msg_parse_failed, None) post_data w1
                         | Inr r \<Rightarrow> returned r post_data w1)))))"

text \<open>
  The value \<^verbatim>\<open>response\<close> that the last \<^verbatim>\<open>try\<close> of \<^verbatim>\<open>_post_and_parse\<close> interprets,
  when the payload is encoded, the request answered and the answer decoded.
\<close>

definition decoded_response :: "env \<Rightarrow> pystr \<Rightarrow> pyval \<Rightarrow> rat \<Rightarrow> world \<Rightarrow> pyval option" where
  "decoded_response e post_url post_data tmo w =
     (case json_dumps e post_data of
        Inl x \<Rightarrow> None
      | Inr body \<Rightarrow>
          (case requests_post e (posts w)
                  \<lparr>req_url = post_url, req_body = body, req_timeout = tmo\<rparr> of
             Inl x \<Rightarrow> None
           | Inr raw_response \<Rightarrow>
               (case response_json e raw_response of
                  Inl x \<Rightarrow> None
                | Inr response \<Rightarrow> Some response)))"

section \<open>The listing of users in log messages\<close>

definition priv_log_users :: "pyval list \<Rightarrow> exn + pystr" where
  "priv_log_users users =
     (if length users \<le> 10 then join (ascii '', '') users
      else and_then
        (join (ascii '', '')
           (take 3 users @ [PStr (ascii ''...'')] @ drop (length users - 3) users))
        (\<lambda>s. Inr (s @ [0x7B49] @ str_int (int (length users)) @ [0x7528, 0x6237])))"

section \<open>The batched retrying sender\<close>

text \<open>The detail parser \<^verbatim>\<open>_parser\<close> local to \<^verbatim>\<open>_send_wechat\<close> (lines 140 to 143).\<close>

definition priv_parser :: "pyval \<Rightarrow> exn + parse_result" where
  "priv_parser detail =
     and_then (iterate detail) (\<lambda>xs.
       and_then (collect (\<lambda>x. getitem_int x 0) xs) (\<lambda>retrys.
         and_then (getitem_int detail 0) (\<lambda>d0.
           and_then (getitem_int d0 1) (\<lambda>errmsg.
             Inr (errmsg, Some retrys)))))"

text \<open>The arguments of \<^verbatim>\<open>_send_wechat\<close>, as one value a job can hold.\<close>

record send_args =
  arg_users :: "pystr list"
  arg_message :: pystr
  arg_api_url :: pystr
  arg_card :: bool
  arg_url :: "pystr option"
  arg_btntxt :: "pystr option"
  arg_retry_times :: int

definition initial_post_data :: "config \<Rightarrow> send_args \<Rightarrow> (pystr \<times> pyval) list" where
  "initial_post_data cfg a =
     [(ascii ''touser'', PList (map PStr (arg_users a))),
      (ascii ''content'', PStr (arg_message a)),
      (ascii ''toall'', PBool True),
      (ascii ''secret'', hasher_encode cfg (arg_message a))]
     @ (if arg_card a then
          [(ascii ''card'', PBool True)]
          @ (case arg_url a of None \<Rightarrow> [] | Some u \<Rightarrow> [(ascii ''url'', PStr u)])
          @ (case arg_btntxt a of None \<Rightarrow> [] | Some b \<Rightarrow> [(ascii ''btntxt'', PStr b)])
        else [])"

definition log_add :: "log_entry \<Rightarrow> world \<Rightarrow> world" where
  "log_add entry w = w\<lparr>logs := logs w @ [entry]\<rparr>"

text \<open>
  The loop \<^verbatim>\<open>for i in range(retry_times)\<close> of \<^verbatim>\<open>_send_wechat\<close>, by the number of
  rounds left; \<open>post_data\<close> is the payload, whose \<^verbatim>\<open>touser\<close> entry the loop replaces.
  An exception of a log listing ends the call.
\<close>

fun send_attempts ::
  "env \<Rightarrow> config \<Rightarrow> pystr list \<Rightarrow> pystr \<Rightarrow> nat \<Rightarrow> (pystr \<times> pyval) list \<Rightarrow> world
     \<Rightarrow> (exn + pyval) \<times> world" where
  "send_attempts e cfg users url 0 post_data w = (Inr PNone, w)"
| "send_attempts e cfg users url (Suc n) post_data w =
     (case priv_post_and_parse e url (PDict post_data) (timeout cfg) (Some priv_parser) w of
        (Inl x, w1) \<Rightarrow> (Inl x, w1)
      | (Inr (errmsg, retrys), w1) \<Rightarrow>
          (if errmsg = PNone then
             (case priv_log_users (map PStr users) of
                Inl x \<Rightarrow> (Inl x, w1)
              | Inr lu \<Rightarrow> (Inr PNone, log_add (Info_sent lu) w1))
           else
             (case retrys of
                None \<Rightarrow>
                  (case priv_log_users (map PStr users) of
                     Inl x \<Rightarrow> (Inl x, w1)
                   | Inr lu \<Rightarrow> (Inr PNone, log_add (Warning_failed lu errmsg) w1))
              | Some r \<Rightarrow>
                  (case priv_log_users (map PStr users) of
                     Inl x \<Rightarrow> (Inl x, w1)
                   | Inr lu \<Rightarrow>
                       (case priv_log_users r of
                          Inl x \<Rightarrow> (Inl x, w1)
                        | Inr lr \<Rightarrow>
                            send_attempts e cfg users url n
                              (AList.update (ascii ''touser'') (PList r) post_data)
                              (log_add (Warning_partial lu lr errmsg) w1))))))"

definition priv_send_wechat :: "env \<Rightarrow> config \<Rightarrow> send_args \<Rightarrow> world \<Rightarrow> (exn + pyval) \<times> world" where
  "priv_send_wechat e cfg a w =
     send_attempts e cfg (arg_users a) (arg_api_url a) (nat (arg_retry_times a))
       (initial_post_data cfg a) w"

section \<open>The deferred-call wrapper\<close>

text \<open>
  A \<^verbatim>\<open>datetime\<close> is counted in microseconds from the first instant Python can
  represent, a \<^verbatim>\<open>timedelta\<close> in microseconds. Adding the two raises
  \<^verbatim>\<open>OverflowError\<close> when the sum is not a \<^verbatim>\<open>datetime\<close> (years 1 to 9999).
\<close>

definition datetime_end :: int where
  "datetime_end = 3652059 * 86400 * 1000000"

definition datetime_add :: "int \<Rightarrow> int \<Rightarrow> exn + int" where
  "datetime_add t d =
     (if 0 \<le> t + d \<and> t + d < datetime_end then Inr (t + d) else Inl OverflowError)"

text \<open>The argument \<^verbatim>\<open>next_run_time\<close>: a \<^verbatim>\<open>datetime\<close>, a \<^verbatim>\<open>timedelta\<close> or \<^verbatim>\<open>None\<close>.\<close>

datatype next_run = At_datetime int | After_timedelta int | Unset

text \<open>
  A job as \<^verbatim>\<open>scheduler.add_job\<close> receives it, and the state a caller acts on: the
  world the wrapped function acts on, the jobs registered with the scheduler, and how
  often the clock has been read.
\<close>

record ('a, 'w) job =
  job_func :: "'a \<Rightarrow> 'w \<Rightarrow> (exn + pyval) \<times> 'w"
  job_trigger :: pystr
  job_args :: 'a
  job_next_run_time :: int

record ('a, 'w) system =
  world_of :: 'w
  jobs :: "('a, 'w) job list"
  clock_reads :: nat

definition run_inline ::
  "('a \<Rightarrow> 'w \<Rightarrow> (exn + pyval) \<times> 'w) \<Rightarrow> 'a \<Rightarrow> ('a, 'w) system
     \<Rightarrow> (exn + pyval) \<times> ('a, 'w) system" where
  "run_inline func args s =
     (case func args (world_of s) of (r, w1) \<Rightarrow> (r, s\<lparr>world_of := w1\<rparr>))"

definition add_job ::
  "('a \<Rightarrow> 'w \<Rightarrow> (exn + pyval) \<times> 'w) \<Rightarrow> 'a \<Rightarrow> int \<Rightarrow> ('a, 'w) system
     \<Rightarrow> (exn + pyval) \<times> ('a, 'w) system" where
  "add_job func args t s =
     (Inr PNone,
      s\<lparr>jobs := jobs s @
         [\<lparr>job_func = func, job_trigger = ascii ''date'', job_args = args,
           job_next_run_time = t\<rparr>]\<rparr>)"

definition run_after ::
  "env \<Rightarrow> ('a \<Rightarrow> 'w \<Rightarrow> (exn + pyval) \<times> 'w) \<Rightarrow> int \<Rightarrow> 'a \<Rightarrow> ('a, 'w) system
     \<Rightarrow> (exn + pyval) \<times> ('a, 'w) system" where
  "run_after e func d args s =
     (let s1 = s\<lparr>clock_reads := Suc (clock_reads s)\<rparr> in
      case datetime_add (now e (clock_reads s)) d of
        Inl x \<Rightarrow> (Inl x, s1)
      | Inr t \<Rightarrow> add_job func args t s1)"

text \<open>
  \<^verbatim>\<open>_get_caller\<close>: the function itself, run on the world, or the wrapper \<^verbatim>\<open>_func\<close>,
  which registers a job and returns \<^verbatim>\<open>None\<close>.
\<close>

definition priv_get_caller ::
  "env \<Rightarrow> config \<Rightarrow> ('a \<Rightarrow> 'w \<Rightarrow> (exn + pyval) \<times> 'w) \<Rightarrow> bool \<Rightarrow> next_run
     \<Rightarrow> 'a \<Rightarrow> ('a, 'w) system \<Rightarrow> (exn + pyval) \<times> ('a, 'w) system" where
  "priv_get_caller e cfg func mt next_run_time =
     (if \<not> (mt \<and> multithread cfg) then run_inline func
      else (\<lambda>args s.
        case next_run_time of
          At_datetime t \<Rightarrow> add_job func args t s
        | After_timedelta d \<Rightarrow> run_after e func d args s
        | Unset \<Rightarrow> run_after e func (5 * 1000000) args s))"

section \<open>The public entry point\<close>

text \<open>
  \<^verbatim>\<open>range(0, stop, step)\<close> for \<open>stop \<ge> 0\<close>: a \<^verbatim>\<open>ValueError\<close> when the step is 0, nothing
  when it is negative.
\<close>

definition py_range_step :: "nat \<Rightarrow> int \<Rightarrow> exn + nat list" where
  "py_range_step stop step =
     (if step = 0 then Inl ValueError
      else if step < 0 then Inr []
      else Inr (map (\<lambda>k. k * nat step) [0 ..< (stop + nat step - 1) div nat step]))"

text \<open>
  The calls \<^verbatim>\<open>caller(userids, ...)\<close> of the loop of \<^verbatim>\<open>send_wechat\<close>, in list order;
  an exception of a call ends the loop. The last component lists the arguments
  \<open>caller\<close> was called with.
\<close>

fun call_batches ::
  "('a \<Rightarrow> 's \<Rightarrow> (exn + pyval) \<times> 's) \<Rightarrow> 'a list \<Rightarrow> 's \<Rightarrow> (exn + pyval) \<times> 's \<times> 'a list" where
  "call_batches caller [] s = (Inr PNone, s, [])"
| "call_batches caller (a # as) s =
     (case caller a s of
        (Inl x, s1) \<Rightarrow> (Inl x, s1, [a])
      | (Inr r, s1) \<Rightarrow>
          (case call_batches caller as s1 of (res, s2, called) \<Rightarrow> (res, s2, a # called)))"

text \<open>\<^verbatim>\<open>DEFAULT_URL\<close>, and the default button label of line 193.\<close>

definition default_url :: "env \<Rightarrow> pystr" where
  "default_url e = build_full_url e (ascii ''/'') None"

definition default_btntxt :: pystr where
  "default_btntxt = [0x8BE6, 0x60C5]"

definition send_wechat ::
  "env \<Rightarrow> config \<Rightarrow> ident list \<Rightarrow> pystr \<Rightarrow> pystr \<Rightarrow> bool \<Rightarrow> pystr option \<Rightarrow> pystr option
     \<Rightarrow> bool \<Rightarrow> bool \<Rightarrow> int \<Rightarrow> (send_args, world) system
     \<Rightarrow> (exn + pyval) \<times> (send_args, world) system \<times> send_args list" where
  "send_wechat e cfg users message api_path card_flag url btntxt dflt mt retry_times s =
     (let users1 = priv_get_available_users cfg users in
      if users1 = [] then
        (Inr PNone, s\<lparr>world_of := log_add Warning_no_users (world_of s)\<rparr>, [])
      else
        (let url1 =
               (if card_flag then
                  (case url of
                     Some u \<Rightarrow> Some (build_full_url e u None)
                   | None \<Rightarrow> (if dflt then Some (default_url e) else None))
                else url);
             btntxt1 = (if card_flag \<and> btntxt = None \<and> dflt then Some default_btntxt else btntxt);
             retry_times1 = (if \<not> retry cfg then 1 else retry_times);
             total_ct = length users1;
             caller = priv_get_caller e cfg (priv_send_wechat e cfg) mt Unset
         in case py_range_step total_ct (send_batch cfg) of
              Inl x \<Rightarrow> (Inl x, s, [])
            | Inr starts \<Rightarrow>
                call_batches caller
                  (map (\<lambda>i.
                      \<lparr>arg_users = take (nat (send_batch cfg)) (drop i users1),
                       arg_message = message,
                       arg_api_url = build_full_url e api_path (Some (api_url cfg)),
                       arg_card = card_flag, arg_url = url1, arg_btntxt = btntxt1,
                       arg_retry_times = retry_times1\<rparr>)
                    starts)
                  s))"

section \<open>The calls one run of the sender leaves\<close>

text \<open>
  What a run of the loop of \<^verbatim>\<open>_send_wechat\<close> with \<open>n\<close> rounds, initial payload
  \<open>pd\<close>, result \<open>res\<close> and \<open>sent\<close> requests posted adds to \<open>calls\<close>: at most \<open>n\<close>
  entries, one request per payload that encodes, the first entry for \<open>pd\<close>, each next
  payload the one before with the retry list as \<^verbatim>\<open>touser\<close>, at least one entry when
  \<open>n > 0\<close>, fewer than \<open>n\<close> only after a success, a hard failure or an exception, and
  no exception when every retry list can be listed.
\<close>

definition trace_ok ::
  "env \<Rightarrow> nat \<Rightarrow> (pystr \<times> pyval) list \<Rightarrow> (exn + pyval) \<Rightarrow> nat \<Rightarrow> (pyval \<times> parse_result) list \<Rightarrow> bool" where
  "trace_ok e n pd res sent new \<longleftrightarrow>
     length new \<le> n \<and>
     sent = length (filter (\<lambda>c. \<not> isl (json_dumps e (fst c))) new) \<and>
     (new \<noteq> [] \<longrightarrow> fst (new ! 0) = PDict pd) \<and>
     (\<forall>k. Suc k < length new \<longrightarrow>
        (\<exists>kvs m r. new ! k = (PDict kvs, m, Some r) \<and> m \<noteq> PNone \<and>
           fst (new ! Suc k) = PDict (AList.update (ascii ''touser'') (PList r) kvs))) \<and>
     (0 < n \<longrightarrow> new \<noteq> []) \<and>
     (\<forall>k. Suc k = length new \<and> length new < n \<longrightarrow>
        fst (snd (new ! k)) = PNone \<or> snd (snd (new ! k)) = None \<or> (\<exists>x. res = Inl x)) \<and>
     ((\<forall>k r. k < length new \<and> fst (snd (new ! k)) \<noteq> PNone \<and> snd (snd (new ! k)) = Some r
          \<longrightarrow> (\<exists>s. priv_log_users r = Inr s)) \<longrightarrow> res = Inr PNone)"


section \<open>Test doubles\<close>

text \<open>
  An environment that encodes every payload to \<open>enc\<close>, answers every request with
  \<open>ans\<close> and decodes every answer to \<open>dec\<close>; a configuration with batches of two and
  no allow-list; an empty world; a system with nothing scheduled.
\<close>

definition test_env :: "exn + pystr \<Rightarrow> exn + pystr \<Rightarrow> exn + pyval \<Rightarrow> env" where
  "test_env enc ans dec =
     \<lparr>json_dumps = (\<lambda>d. enc), requests_post = (\<lambda>sent rq. ans),
      response_json = (\<lambda>raw. dec),
      build_full_url = (\<lambda>path base. case base of None \<Rightarrow> path | Some b \<Rightarrow> b @ path),
      now = (\<lambda>k. 1000000 * int k)\<rparr>"

definition test_config :: config where
  "test_config =
     \<lparr>api_url = ascii ''http://api'', timeout = 5, send_batch = 2, multithread = True,
      retry = True, receivers = None, blacklist = {}, hasher_encode = PStr\<rparr>"

definition empty_world :: world where
  "empty_world = \<lparr>posts = [], logs = [], calls = []\<rparr>"

definition idle_system :: "(send_args, world) system" where
  "idle_system = \<lparr>world_of = empty_world, jobs = [], clock_reads = 0\<rparr>"

section \<open>The listing the specification describes\<close>

text \<open>The full comma-separated listing of a list of strings.\<close>

fun comma_separated :: "pystr list \<Rightarrow> pystr" where
  "comma_separated [] = []"
| "comma_separated [u] = u"
| "comma_separated (u # v # vs) = u @ ascii '', '' @ comma_separated (v # vs)"

section \<open>Properties of the user filter\<close>

lemma filtered_set:
  "set (priv_get_available_users cfg users) =
     (case receivers cfg of None \<Rightarrow> str ` set users | Some r \<Rightarrow> str ` set users \<inter> r)
       - blacklist cfg"
  by (auto simp: priv_get_available_users_def Let_def split: option.splits)

lemma filtered_sorted: "sorted (priv_get_available_users cfg users)"
  by (simp add: priv_get_available_users_def Let_def)

lemma filtered_distinct: "distinct (priv_get_available_users cfg users)"
  by (simp add: priv_get_available_users_def Let_def)

text \<open>
  C4: the filter returns a sorted list without duplicates whose elements are exactly the
  string forms of the given identifiers that are in the allow-list (when one is
  configured) and not in the block-list; so every element is the string form of a given
  identifier. With allow-list \<open>{"1", "2"}\<close> and block-list \<open>{"2"}\<close>, the identifiers
  \<open>[1, 2, 2, 3]\<close> give \<open>["1"]\<close>.
\<close>

theorem get_available_users_spec:
  "sorted (priv_get_available_users cfg users) \<and>
   distinct (priv_get_available_users cfg users) \<and>
   set (priv_get_available_users cfg users) =
     (case receivers cfg of None \<Rightarrow> str ` set users | Some r \<Rightarrow> str ` set users \<inter> r)
       - blacklist cfg \<and>
   set (priv_get_available_users cfg users) \<subseteq> str ` set users \<and>
   priv_get_available_users
     (cfg\<lparr>receivers := Some {ascii ''1'', ascii ''2''}, blacklist := {ascii ''2''}\<rparr>)
     [IdInt 1, IdInt 2, IdInt 2, IdInt 3] = [ascii ''1'']"
proof -
  have sub: "set (priv_get_available_users cfg users) \<subseteq> str ` set users"
    unfolding filtered_set by (auto split: option.splits)
  have c: "priv_get_available_users
     (cfg\<lparr>receivers := Some {ascii ''1'', ascii ''2''}, blacklist := {ascii ''2''}\<rparr>)
     [IdInt 1, IdInt 2, IdInt 2, IdInt 3] = [ascii ''1'']"
    by (simp add: priv_get_available_users_def ascii_def str_int_def digits.simps
        insert_Diff_if)
  from filtered_sorted [of cfg users] filtered_distinct [of cfg users]
    filtered_set [of cfg users] sub c
  show ?thesis by blast
qed

text \<open>
  C9: the filter is idempotent: applied to its own output (a list of strings), it
  returns that output.
\<close>

theorem get_available_users_idem:
  "priv_get_available_users cfg (map IdStr (priv_get_available_users cfg users)) =
   priv_get_available_users cfg users"
proof -
  let ?out = "priv_get_available_users cfg users"
  let ?again = "priv_get_available_users cfg (map IdStr ?out)"
  have m: "str ` set (map IdStr ?out) = set ?out"
    by (simp add: image_image)
  have "set ?again = set ?out"
    unfolding filtered_set [of cfg "map IdStr ?out"] m
    unfolding filtered_set [of cfg users]
    by (auto split: option.splits)
  then show ?thesis
    using filtered_sorted [of cfg "map IdStr ?out"] filtered_distinct [of cfg "map IdStr ?out"]
      filtered_sorted [of cfg users] filtered_distinct [of cfg users]
    by (metis sorted_distinct_set_unique)
qed

section \<open>Properties of the log listing\<close>

lemma join_strings: "join (ascii '', '') (map PStr us) = Inr (comma_separated us)"
  by (induction us rule: comma_separated.induct) (simp_all add: and_then_def)

lemma take3: "3 \<le> length xs \<Longrightarrow> take 3 xs = [xs ! 0, xs ! 1, xs ! 2]"
proof -
  assume "3 \<le> length xs"
  then obtain a b c r where "xs = a # b # c # r"
    by (cases xs; cases "tl xs"; cases "tl (tl xs)") auto
  then show ?thesis by (simp add: numeral_2_eq_2)
qed

lemma drop3:
  assumes "3 \<le> length xs"
  shows "drop (length xs - 3) xs =
         [xs ! (length xs - 3), xs ! (length xs - 2), xs ! (length xs - 1)]"
proof -
  let ?n = "length xs"
  have a: "drop (?n - 3) xs = xs ! (?n - 3) # drop (Suc (?n - 3)) xs"
    using assms by (intro Cons_nth_drop_Suc [symmetric]) simp
  have b: "drop (?n - 2) xs = xs ! (?n - 2) # drop (Suc (?n - 2)) xs"
    using assms by (intro Cons_nth_drop_Suc [symmetric]) simp
  have c: "drop (?n - 1) xs = xs ! (?n - 1) # drop (Suc (?n - 1)) xs"
    using assms by (intro Cons_nth_drop_Suc [symmetric]) simp
  have s1: "Suc (?n - 3) = ?n - 2" and s2: "Suc (?n - 2) = ?n - 1" and s3: "Suc (?n - 1) = ?n"
    using assms by simp_all
  show ?thesis using a b c by (simp add: s1 s2 s3)
qed

lemma str_int_11: "str_int 11 = ascii ''11''"
  by (simp add: str_int_def digits.simps ascii_def)

lemma log_users_strings: "\<exists>s. priv_log_users (map PStr us) = Inr s"
proof -
  have "take 3 (map PStr us) @ [PStr (ascii ''...'')] @ drop (length (map PStr us) - 3) (map PStr us)
        = map PStr (take 3 us @ [ascii ''...''] @ drop (length us - 3) us)"
    by (simp add: take_map drop_map)
  then show ?thesis
    unfolding priv_log_users_def by (simp add: join_strings and_then_def del: map_append)
qed


text \<open>
  C8: for a list of strings, \<^verbatim>\<open>_log_users\<close> returns the full comma-separated listing
  when there are at most 10; otherwise the first three entries, the marker \<open>...\<close>, the
  last three entries, all separated by commas, and then the count between the two fixed
  words. For 11 users these are the entries 1 to 3, the marker, the entries 9 to 11 and
  the count 11.
\<close>

theorem log_users_spec:
  "(length us \<le> 10 \<longrightarrow> priv_log_users (map PStr us) = Inr (comma_separated us)) \<and>
   (10 < length us \<longrightarrow>
      priv_log_users (map PStr us) =
        Inr (us ! 0 @ ascii '', '' @ us ! 1 @ ascii '', '' @ us ! 2 @ ascii '', ''
             @ ascii ''...'' @ ascii '', ''
             @ us ! (length us - 3) @ ascii '', '' @ us ! (length us - 2) @ ascii '', ''
             @ us ! (length us - 1)
             @ [0x7B49] @ str_int (int (length us)) @ [0x7528, 0x6237])) \<and>
   priv_log_users (map PStr [u1, u2, u3, u4, u5, u6, u7, u8, u9, u10, u11]) =
     Inr (u1 @ ascii '', '' @ u2 @ ascii '', '' @ u3 @ ascii '', ''
          @ ascii ''...'' @ ascii '', ''
          @ u9 @ ascii '', '' @ u10 @ ascii '', '' @ u11
          @ [0x7B49] @ ascii ''11'' @ [0x7528, 0x6237])"
proof (intro conjI impI)
  assume "length us \<le> 10"
  then show "priv_log_users (map PStr us) = Inr (comma_separated us)"
    by (simp add: priv_log_users_def join_strings)
next
  assume l: "10 < length us"
  then have i: "0 < length us" "1 < length us" "2 < length us" by auto
  from l have t: "take 3 (map PStr us) = [PStr (us ! 0), PStr (us ! 1), PStr (us ! 2)]"
    using take3 [of "map PStr us"] nth_map [OF i(1), of PStr] nth_map [OF i(2), of PStr]
      nth_map [OF i(3), of PStr] by simp
  from l have d: "drop (length us - 3) (map PStr us) =
      [PStr (us ! (length us - 3)), PStr (us ! (length us - 2)), PStr (us ! (length us - 1))]"
    using drop3 [of "map PStr us"] by simp
  from l show "priv_log_users (map PStr us) =
        Inr (us ! 0 @ ascii '', '' @ us ! 1 @ ascii '', '' @ us ! 2 @ ascii '', ''
             @ ascii ''...'' @ ascii '', ''
             @ us ! (length us - 3) @ ascii '', '' @ us ! (length us - 2) @ ascii '', ''
             @ us ! (length us - 1)
             @ [0x7B49] @ str_int (int (length us)) @ [0x7528, 0x6237])"
    unfolding priv_log_users_def using t d by (simp add: and_then_def)
next
  show "priv_log_users (map PStr [u1, u2, u3, u4, u5, u6, u7, u8, u9, u10, u11]) =
     Inr (u1 @ ascii '', '' @ u2 @ ascii '', '' @ u3 @ ascii '', ''
          @ ascii ''...'' @ ascii '', ''
          @ u9 @ ascii '', '' @ u10 @ ascii '', '' @ u11
          @ [0x7B49] @ ascii ''11'' @ [0x7528, 0x6237])"
    by (simp add: priv_log_users_def and_then_def str_int_11)
qed

theorem log_users_spec_witness:
  "priv_log_users (map PStr [ascii ''a'', ascii ''b'']) = Inr (ascii ''a, b'') \<and>
   priv_log_users
     (map PStr (map ascii [''a'', ''b'', ''c'', ''d'', ''e'', ''f'', ''g'', ''h'', ''i'',
                           ''j'', ''k'', ''l''])) =
     Inr (ascii ''a, b, c, ..., j, k, l'' @ [0x7B49] @ ascii ''12'' @ [0x7528, 0x6237])"
  using log_users_spec [of "[ascii ''a'', ascii ''b'']"]
    log_users_spec [of "map ascii [''a'', ''b'', ''c'', ''d'', ''e'', ''f'', ''g'', ''h'',
                                   ''i'', ''j'', ''k'', ''l'']"]
  by (simp add: ascii_def str_int_def digits.simps)

section \<open>Properties of the interpreter\<close>

lemma post_and_parse_decoded:
  "decoded_response e u d t w = Some response \<Longrightarrow>
   fst (priv_post_and_parse e u d t p w) =
     Inr (case interpret_response response p of
            Inl x \<Rightarrow> (PStr msg_parse_failed, None) | Inr r \<Rightarrow> r)"
  by (auto simp: decoded_response_def priv_post_and_parse_def returned_def Let_def
      split: sum.splits)

lemma post_and_parse_total: "\<exists>r. fst (priv_post_and_parse e u d t p w) = Inr r"
  by (auto simp: priv_post_and_parse_def returned_def Let_def split: sum.splits)

lemma interpret_ok:
  "map_of kvs (ascii ''status'') = Some st \<Longrightarrow> eq_int st 200 \<Longrightarrow>
   interpret_response (PDict kvs) p = Inr (PNone, Some [])"
  by (simp add: interpret_response_def and_then_def)

lemma interpret_detail:
  "map_of kvs (ascii ''status'') = Some st \<Longrightarrow> \<not> eq_int st 200 \<Longrightarrow>
   map_of kvs (ascii ''data'') = Some (PDict dkvs) \<Longrightarrow>
   map_of dkvs (ascii ''detail'') = Some dv \<Longrightarrow> truthy dv \<Longrightarrow>
   interpret_response (PDict kvs) p =
     (case p of None \<Rightarrow> Inl AssertionError | Some f \<Rightarrow> f dv)"
  by (simp add: interpret_response_def and_then_def split: option.splits)

lemma interpret_errmsg:
  "map_of kvs (ascii ''status'') = Some st \<Longrightarrow> \<not> eq_int st 200 \<Longrightarrow>
   map_of kvs (ascii ''data'') = Some (PDict dkvs) \<Longrightarrow>
   (case map_of dkvs (ascii ''detail'') of None \<Rightarrow> True | Some dv \<Rightarrow> \<not> truthy dv) \<Longrightarrow>
   map_of dkvs (ascii ''errMsg'') = Some m \<Longrightarrow>
   interpret_response (PDict kvs) p = Inr (m, None)"
  by (simp add: interpret_response_def and_then_def split: option.splits)

lemma collect_pairs:
  "collect (\<lambda>x. getitem_int x 0) (map (\<lambda>(u, m). PList [u, m]) ps) = Inr (map fst ps)"
  by (induction ps) (auto simp: and_then_def)

lemma parser_pairs:
  "priv_parser (PList (PList [u0, m0] # map (\<lambda>(u, m). PList [u, m]) rest)) =
     Inr (m0, Some (u0 # map fst rest))"
  by (simp add: priv_parser_def and_then_def collect_pairs)

lemma msgs_distinct:
  "distinct [msg_encode_failed, msg_connect_failed, msg_decode_failed, msg_parse_failed]"
  by (simp add: msg_encode_failed_def msg_connect_failed_def msg_decode_failed_def
      msg_parse_failed_def ascii_def)


text \<open>
  C2, with the cases as the code tests them: how \<^verbatim>\<open>_post_and_parse\<close> maps the decoded
  response to its result. A status equal to 200 gives \<open>(None, [])\<close>. Otherwise, when the data is an object with a
  truthy detail field (a non-empty list, but equally any other truthy value, such as a
  non-empty string), the result is the pair the supplied detail parser returns for that
  value, and the parsing-failed message with no retry list when the parser raises or
  none is supplied; for the parser of the batched sender and a list of pairs, the pair
  is the error message of the first pair with the recipients of all pairs. Otherwise,
  data that carries \<open>errMsg\<close> gives \<open>(data.errMsg, None)\<close>. Every remaining decoded
  response (no status, no data, data that is no object, no \<open>errMsg\<close>) gives the
  parsing-failed message with no retry list. The three responses of the specification
  give \<open>(None, [])\<close>, \<open>("bad", None)\<close> and \<open>("fail", ["u1", "u2"])\<close>.
\<close>

theorem post_and_parse_shapes:
  "(decoded_response e u d t w = Some (PDict kvs) \<and>
    map_of kvs (ascii ''status'') = Some st \<and> eq_int st 200 \<longrightarrow>
      fst (priv_post_and_parse e u d t p w) = Inr (PNone, Some [])) \<and>
   (decoded_response e u d t w = Some (PDict kvs) \<and>
    map_of kvs (ascii ''status'') = Some st \<and> \<not> eq_int st 200 \<and>
    map_of kvs (ascii ''data'') = Some (PDict dkvs) \<and>
    map_of dkvs (ascii ''detail'') = Some dv \<and> truthy dv \<longrightarrow>
      fst (priv_post_and_parse e u d t p w) =
        Inr (case p of
               None \<Rightarrow> (PStr msg_parse_failed, None)
             | Some f \<Rightarrow>
                 (case f dv of Inl x \<Rightarrow> (PStr msg_parse_failed, None) | Inr r \<Rightarrow> r))) \<and>
   priv_parser (PList (PList [u0, m0] # map (\<lambda>(u, m). PList [u, m]) rest)) =
     Inr (m0, Some (u0 # map fst rest)) \<and>
   (decoded_response e u d t w = Some (PDict kvs) \<and>
    map_of kvs (ascii ''status'') = Some st \<and> \<not> eq_int st 200 \<and>
    map_of kvs (ascii ''data'') = Some (PDict dkvs) \<and>
    (case map_of dkvs (ascii ''detail'') of None \<Rightarrow> True | Some dv \<Rightarrow> \<not> truthy dv) \<and>
    map_of dkvs (ascii ''errMsg'') = Some m \<longrightarrow>
      fst (priv_post_and_parse e u d t p w) = Inr (m, None)) \<and>
   (decoded_response e u d t w = Some (PDict [(ascii ''status'', PInt 200)]) \<longrightarrow>
      fst (priv_post_and_parse e u d t p w) = Inr (PNone, Some [])) \<and>
   (decoded_response e u d t w =
      Some (PDict [(ascii ''status'', PInt 400),
                   (ascii ''data'', PDict [(ascii ''errMsg'', PStr (ascii ''bad''))])]) \<longrightarrow>
      fst (priv_post_and_parse e u d t p w) = Inr (PStr (ascii ''bad''), None)) \<and>
   (decoded_response e u d t w = Some (PDict kvs) \<and>
    map_of kvs (ascii ''status'') = Some st \<and> \<not> eq_int st 200 \<and>
    map_of kvs (ascii ''data'') = Some (PDict dkvs) \<and>
    map_of dkvs (ascii ''detail'') =
      Some (PList [PList [PStr (ascii ''u1''), PStr (ascii ''fail'')],
                   PList [PStr (ascii ''u2''), PStr (ascii ''fail'')]]) \<longrightarrow>
      fst (priv_post_and_parse e u d t (Some priv_parser) w) =
        Inr (PStr (ascii ''fail''), Some [PStr (ascii ''u1''), PStr (ascii ''u2'')])) \<and>
   (decoded_response e u d t w = Some response \<and>
    getitem_str response (ascii ''status'') = Inl x1 \<longrightarrow>
      fst (priv_post_and_parse e u d t p w) = Inr (PStr msg_parse_failed, None)) \<and>
   (decoded_response e u d t w = Some response \<and>
    getitem_str response (ascii ''status'') = Inr st \<and> \<not> eq_int st 200 \<and>
    getitem_str response (ascii ''data'') = Inl x2 \<longrightarrow>
      fst (priv_post_and_parse e u d t p w) = Inr (PStr msg_parse_failed, None)) \<and>
   (decoded_response e u d t w = Some response \<and>
    getitem_str response (ascii ''status'') = Inr st \<and> \<not> eq_int st 200 \<and>
    getitem_str response (ascii ''data'') = Inr datas \<and>
    get_str datas (ascii ''detail'') = Inl x3 \<longrightarrow>
      fst (priv_post_and_parse e u d t p w) = Inr (PStr msg_parse_failed, None)) \<and>
   (decoded_response e u d t w = Some (PDict kvs) \<and>
    map_of kvs (ascii ''status'') = Some st \<and> \<not> eq_int st 200 \<and>
    map_of kvs (ascii ''data'') = Some (PDict dkvs) \<and>
    (case map_of dkvs (ascii ''detail'') of None \<Rightarrow> True | Some dv \<Rightarrow> \<not> truthy dv) \<and>
    map_of dkvs (ascii ''errMsg'') = None \<longrightarrow>
      fst (priv_post_and_parse e u d t p w) = Inr (PStr msg_parse_failed, None))"
proof (intro conjI impI)
  assume "decoded_response e u d t w = Some (PDict kvs) \<and>
    map_of kvs (ascii ''status'') = Some st \<and> eq_int st 200"
  then show "fst (priv_post_and_parse e u d t p w) = Inr (PNone, Some [])"
    by (simp add: post_and_parse_decoded interpret_ok)
next
  assume a: "decoded_response e u d t w = Some (PDict kvs) \<and>
    map_of kvs (ascii ''status'') = Some st \<and> \<not> eq_int st 200 \<and>
    map_of kvs (ascii ''data'') = Some (PDict dkvs) \<and>
    map_of dkvs (ascii ''detail'') = Some dv \<and> truthy dv"
  then have "interpret_response (PDict kvs) p =
      (case p of None \<Rightarrow> Inl AssertionError | Some f \<Rightarrow> f dv)"
    using interpret_detail [of kvs st dkvs dv p] by simp
  with a show "fst (priv_post_and_parse e u d t p w) =
        Inr (case p of
               None \<Rightarrow> (PStr msg_parse_failed, None)
             | Some f \<Rightarrow>
                 (case f dv of Inl x \<Rightarrow> (PStr msg_parse_failed, None) | Inr r \<Rightarrow> r))"
    by (simp add: post_and_parse_decoded split: option.splits)
next
  show "priv_parser (PList (PList [u0, m0] # map (\<lambda>(u, m). PList [u, m]) rest)) =
     Inr (m0, Some (u0 # map fst rest))"
    by (rule parser_pairs)
next
  assume a: "decoded_response e u d t w = Some (PDict kvs) \<and>
    map_of kvs (ascii ''status'') = Some st \<and> \<not> eq_int st 200 \<and>
    map_of kvs (ascii ''data'') = Some (PDict dkvs) \<and>
    (case map_of dkvs (ascii ''detail'') of None \<Rightarrow> True | Some dv \<Rightarrow> \<not> truthy dv) \<and>
    map_of dkvs (ascii ''errMsg'') = Some m"
  then have "interpret_response (PDict kvs) p = Inr (m, None)"
    using interpret_errmsg [of kvs st dkvs m p] by simp
  with a show "fst (priv_post_and_parse e u d t p w) = Inr (m, None)"
    by (simp add: post_and_parse_decoded)
next
  assume "decoded_response e u d t w = Some (PDict [(ascii ''status'', PInt 200)])"
  then show "fst (priv_post_and_parse e u d t p w) = Inr (PNone, Some [])"
    by (simp add: post_and_parse_decoded interpret_ok)
next
  assume a: "decoded_response e u d t w =
      Some (PDict [(ascii ''status'', PInt 400),
                   (ascii ''data'', PDict [(ascii ''errMsg'', PStr (ascii ''bad''))])])"
  have "interpret_response (PDict [(ascii ''status'', PInt 400),
                   (ascii ''data'', PDict [(ascii ''errMsg'', PStr (ascii ''bad''))])]) p
        = Inr (PStr (ascii ''bad''), None)"
    by (rule interpret_errmsg [where st = "PInt 400"
          and dkvs = "[(ascii ''errMsg'', PStr (ascii ''bad''))]"])
       (simp_all add: ascii_def)
  with a show "fst (priv_post_and_parse e u d t p w) = Inr (PStr (ascii ''bad''), None)"
    by (simp add: post_and_parse_decoded)
next
  assume a: "decoded_response e u d t w = Some (PDict kvs) \<and>
    map_of kvs (ascii ''status'') = Some st \<and> \<not> eq_int st 200 \<and>
    map_of kvs (ascii ''data'') = Some (PDict dkvs) \<and>
    map_of dkvs (ascii ''detail'') =
      Some (PList [PList [PStr (ascii ''u1''), PStr (ascii ''fail'')],
                   PList [PStr (ascii ''u2''), PStr (ascii ''fail'')]])"
  have p: "priv_parser (PList [PList [PStr (ascii ''u1''), PStr (ascii ''fail'')],
                   PList [PStr (ascii ''u2''), PStr (ascii ''fail'')]]) =
        Inr (PStr (ascii ''fail''), Some [PStr (ascii ''u1''), PStr (ascii ''u2'')])"
    using parser_pairs [of "PStr (ascii ''u1'')" "PStr (ascii ''fail'')"
        "[(PStr (ascii ''u2''), PStr (ascii ''fail''))]"] by simp
  from a have "interpret_response (PDict kvs) (Some priv_parser) =
      priv_parser (PList [PList [PStr (ascii ''u1''), PStr (ascii ''fail'')],
                   PList [PStr (ascii ''u2''), PStr (ascii ''fail'')]])"
    using interpret_detail [of kvs st dkvs _ "Some priv_parser"] by simp
  with a p show "fst (priv_post_and_parse e u d t (Some priv_parser) w) =
        Inr (PStr (ascii ''fail''), Some [PStr (ascii ''u1''), PStr (ascii ''u2'')])"
    by (simp add: post_and_parse_decoded)
next
  assume "decoded_response e u d t w = Some response \<and>
    getitem_str response (ascii ''status'') = Inl x1"
  then show "fst (priv_post_and_parse e u d t p w) = Inr (PStr msg_parse_failed, None)"
    by (simp add: post_and_parse_decoded interpret_response_def and_then_def)
next
  assume "decoded_response e u d t w = Some response \<and>
    getitem_str response (ascii ''status'') = Inr st \<and> \<not> eq_int st 200 \<and>
    getitem_str response (ascii ''data'') = Inl x2"
  then show "fst (priv_post_and_parse e u d t p w) = Inr (PStr msg_parse_failed, None)"
    by (simp add: post_and_parse_decoded interpret_response_def and_then_def)
next
  assume "decoded_response e u d t w = Some response \<and>
    getitem_str response (ascii ''status'') = Inr st \<and> \<not> eq_int st 200 \<and>
    getitem_str response (ascii ''data'') = Inr datas \<and>
    get_str datas (ascii ''detail'') = Inl x3"
  then show "fst (priv_post_and_parse e u d t p w) = Inr (PStr msg_parse_failed, None)"
    by (simp add: post_and_parse_decoded interpret_response_def and_then_def)
next
  assume "decoded_response e u d t w = Some (PDict kvs) \<and>
    map_of kvs (ascii ''status'') = Some st \<and> \<not> eq_int st 200 \<and>
    map_of kvs (ascii ''data'') = Some (PDict dkvs) \<and>
    (case map_of dkvs (ascii ''detail'') of None \<Rightarrow> True | Some dv \<Rightarrow> \<not> truthy dv) \<and>
    map_of dkvs (ascii ''errMsg'') = None"
  then show "fst (priv_post_and_parse e u d t p w) = Inr (PStr msg_parse_failed, None)"
    by (auto simp: post_and_parse_decoded interpret_response_def and_then_def
        split: option.splits)
qed

theorem post_and_parse_shapes_witness:
  "fst (priv_post_and_parse
          (test_env (Inr []) (Inr []) (Inr (PDict [(ascii ''status'', PInt 200)])))
          (ascii ''u'') PNone 5 None empty_world) = Inr (PNone, Some []) \<and>
   fst (priv_post_and_parse
          (test_env (Inr []) (Inr [])
             (Inr (PDict [(ascii ''status'', PInt 400),
                          (ascii ''data'', PDict [(ascii ''errMsg'', PStr (ascii ''bad''))])])))
          (ascii ''u'') PNone 5 None empty_world) = Inr (PStr (ascii ''bad''), None) \<and>
   fst (priv_post_and_parse
          (test_env (Inr []) (Inr [])
             (Inr (PDict [(ascii ''status'', PInt 400),
                          (ascii ''data'', PDict [(ascii ''detail'',
                             PList [PList [PStr (ascii ''u1''), PStr (ascii ''fail'')],
                                    PList [PStr (ascii ''u2''), PStr (ascii ''fail'')]])])])))
          (ascii ''u'') PNone 5 (Some priv_parser) empty_world) =
     Inr (PStr (ascii ''fail''), Some [PStr (ascii ''u1''), PStr (ascii ''u2'')])"
  using
    post_and_parse_shapes [where e = "test_env (Inr []) (Inr []) (Inr (PDict [(ascii ''status'', PInt 200)]))"
      and u = "ascii ''u''" and d = PNone and t = 5 and w = empty_world and p = None]
    post_and_parse_shapes [where e = "test_env (Inr []) (Inr [])
             (Inr (PDict [(ascii ''status'', PInt 400),
                          (ascii ''data'', PDict [(ascii ''errMsg'', PStr (ascii ''bad''))])]))"
      and u = "ascii ''u''" and d = PNone and t = 5 and w = empty_world and p = None]
    post_and_parse_shapes [where e = "test_env (Inr []) (Inr [])
             (Inr (PDict [(ascii ''status'', PInt 400),
                          (ascii ''data'', PDict [(ascii ''detail'',
                             PList [PList [PStr (ascii ''u1''), PStr (ascii ''fail'')],
                                    PList [PStr (ascii ''u2''), PStr (ascii ''fail'')]])])]))"
      and u = "ascii ''u''" and d = PNone and t = 5 and w = empty_world
      and kvs = "[(ascii ''status'', PInt 400),
                          (ascii ''data'', PDict [(ascii ''detail'',
                             PList [PList [PStr (ascii ''u1''), PStr (ascii ''fail'')],
                                    PList [PStr (ascii ''u2''), PStr (ascii ''fail'')]])])]"
      and st = "PInt 400"
      and dkvs = "[(ascii ''detail'',
                             PList [PList [PStr (ascii ''u1''), PStr (ascii ''fail'')],
                                    PList [PStr (ascii ''u2''), PStr (ascii ''fail'')]])]"]
  by (simp add: decoded_response_def test_env_def empty_world_def ascii_def)

text \<open>
  C2, the wording that any other decoded response gives \<open>data.errMsg\<close>, does not hold:
  a response with status 400 whose data has the string
  \<open>"oops"\<close> as detail and \<open>"bad"\<close> as \<open>errMsg\<close> has no detail list, yet the detail
  parser is called, and with the parser of the batched sender the result is the
  parsing-failed message, not \<open>("bad", None)\<close>.
\<close>

theorem post_and_parse_shapes_counterexample:
  "fst (priv_post_and_parse
          (test_env (Inr []) (Inr [])
             (Inr (PDict [(ascii ''status'', PInt 400),
                          (ascii ''data'',
                           PDict [(ascii ''detail'', PStr (ascii ''oops'')),
                                  (ascii ''errMsg'', PStr (ascii ''bad''))])])))
          (ascii ''u'') PNone 5 (Some priv_parser) empty_world)
     = Inr (PStr msg_parse_failed, None) \<and>
   fst (priv_post_and_parse
          (test_env (Inr []) (Inr [])
             (Inr (PDict [(ascii ''status'', PInt 400),
                          (ascii ''data'',
                           PDict [(ascii ''detail'', PStr (ascii ''oops'')),
                                  (ascii ''errMsg'', PStr (ascii ''bad''))])])))
          (ascii ''u'') PNone 5 (Some priv_parser) empty_world)
     \<noteq> Inr (PStr (ascii ''bad''), None)"
  by (simp add: priv_post_and_parse_def returned_def test_env_def empty_world_def
      interpret_response_def priv_parser_def and_then_def ascii_def msg_parse_failed_def)

lemma post_and_parse_early:
  "json_dumps e d = Inl x \<Longrightarrow>
     fst (priv_post_and_parse e u d t p w) = Inr (PStr msg_encode_failed, None)"
  "json_dumps e d = Inr body \<Longrightarrow>
   requests_post e (posts w) \<lparr>req_url = u, req_body = body, req_timeout = t\<rparr> = Inl x \<Longrightarrow>
     fst (priv_post_and_parse e u d t p w) = Inr (PStr msg_connect_failed, None)"
  "json_dumps e d = Inr body \<Longrightarrow>
   requests_post e (posts w) \<lparr>req_url = u, req_body = body, req_timeout = t\<rparr> = Inr raw \<Longrightarrow>
   response_json e raw = Inl x \<Longrightarrow>
     fst (priv_post_and_parse e u d t p w) = Inr (PStr msg_decode_failed, None)"
  by (simp_all add: priv_post_and_parse_def returned_def)

text \<open>
  C3: \<^verbatim>\<open>_post_and_parse\<close> always returns a result, for every environment, URL, payload,
  timeout and detail parser. A failure to encode, to connect or to decode returns its
  own message with no retry list, the messages being pairwise different; an exception
  while the decoded response is interpreted, also one the detail parser raises, returns
  the fourth message with no retry list.
\<close>

theorem post_and_parse_never_raises:
  "(\<exists>r. fst (priv_post_and_parse e u d t p w) = Inr r) \<and>
   (json_dumps e d = Inl x \<longrightarrow>
      fst (priv_post_and_parse e u d t p w) = Inr (PStr msg_encode_failed, None)) \<and>
   (json_dumps e d = Inr body \<and>
    requests_post e (posts w) \<lparr>req_url = u, req_body = body, req_timeout = t\<rparr> = Inl x \<longrightarrow>
      fst (priv_post_and_parse e u d t p w) = Inr (PStr msg_connect_failed, None)) \<and>
   (json_dumps e d = Inr body \<and>
    requests_post e (posts w) \<lparr>req_url = u, req_body = body, req_timeout = t\<rparr> = Inr raw \<and>
    response_json e raw = Inl x \<longrightarrow>
      fst (priv_post_and_parse e u d t p w) = Inr (PStr msg_decode_failed, None)) \<and>
   distinct [msg_encode_failed, msg_connect_failed, msg_decode_failed, msg_parse_failed] \<and>
   (decoded_response e u d t w = Some response \<and> interpret_response response p = Inl x \<longrightarrow>
      fst (priv_post_and_parse e u d t p w) = Inr (PStr msg_parse_failed, None)) \<and>
   (decoded_response e u d t w = Some (PDict kvs) \<and>
    map_of kvs (ascii ''status'') = Some st \<and> \<not> eq_int st 200 \<and>
    map_of kvs (ascii ''data'') = Some (PDict dkvs) \<and>
    map_of dkvs (ascii ''detail'') = Some dv \<and> truthy dv \<and> f dv = Inl x \<longrightarrow>
      fst (priv_post_and_parse e u d t (Some f) w) = Inr (PStr msg_parse_failed, None))"
proof (intro conjI impI)
  show "\<exists>r. fst (priv_post_and_parse e u d t p w) = Inr r"
    by (rule post_and_parse_total)
next
  show "distinct [msg_encode_failed, msg_connect_failed, msg_decode_failed, msg_parse_failed]"
    by (rule msgs_distinct)
next
  assume "decoded_response e u d t w = Some response \<and> interpret_response response p = Inl x"
  then show "fst (priv_post_and_parse e u d t p w) = Inr (PStr msg_parse_failed, None)"
    by (simp add: post_and_parse_decoded)
next
  assume a: "decoded_response e u d t w = Some (PDict kvs) \<and>
    map_of kvs (ascii ''status'') = Some st \<and> \<not> eq_int st 200 \<and>
    map_of kvs (ascii ''data'') = Some (PDict dkvs) \<and>
    map_of dkvs (ascii ''detail'') = Some dv \<and> truthy dv \<and> f dv = Inl x"
  then have "interpret_response (PDict kvs) (Some f) = Inl x"
    using interpret_detail [of kvs st dkvs dv "Some f"] by simp
  with a show "fst (priv_post_and_parse e u d t (Some f) w) = Inr (PStr msg_parse_failed, None)"
    by (simp add: post_and_parse_decoded)
qed (simp_all add: post_and_parse_early)

theorem post_and_parse_never_raises_witness:
  "fst (priv_post_and_parse (test_env (Inl LibraryError) (Inr []) (Inr PNone))
          (ascii ''u'') PNone 5 None empty_world) = Inr (PStr msg_encode_failed, None) \<and>
   fst (priv_post_and_parse (test_env (Inr []) (Inl LibraryError) (Inr PNone))
          (ascii ''u'') PNone 5 None empty_world) = Inr (PStr msg_connect_failed, None) \<and>
   fst (priv_post_and_parse (test_env (Inr []) (Inr []) (Inl LibraryError))
          (ascii ''u'') PNone 5 None empty_world) = Inr (PStr msg_decode_failed, None) \<and>
   fst (priv_post_and_parse (test_env (Inr []) (Inr []) (Inr (PList [])))
          (ascii ''u'') PNone 5 None empty_world) = Inr (PStr msg_parse_failed, None) \<and>
   fst (priv_post_and_parse
          (test_env (Inr []) (Inr [])
             (Inr (PDict [(ascii ''status'', PInt 400),
                          (ascii ''data'', PDict [(ascii ''detail'', PInt 7)])])))
          (ascii ''u'') PNone 5 (Some priv_parser) empty_world) =
     Inr (PStr msg_parse_failed, None)"
  using
    post_and_parse_never_raises [where e = "test_env (Inl LibraryError) (Inr []) (Inr PNone)"
      and u = "ascii ''u''" and d = PNone and t = 5 and w = empty_world and p = None
      and x = LibraryError]
    post_and_parse_never_raises [where e = "test_env (Inr []) (Inl LibraryError) (Inr PNone)"
      and u = "ascii ''u''" and d = PNone and t = 5 and w = empty_world and p = None
      and x = LibraryError and body = "[]"]
    post_and_parse_never_raises [where e = "test_env (Inr []) (Inr []) (Inl LibraryError)"
      and u = "ascii ''u''" and d = PNone and t = 5 and w = empty_world and p = None
      and x = LibraryError and body = "[]" and raw = "[]"]
    post_and_parse_never_raises [where e = "test_env (Inr []) (Inr []) (Inr (PList []))"
      and u = "ascii ''u''" and d = PNone and t = 5 and w = empty_world and p = None
      and x = TypeError and response = "PList []"]
    post_and_parse_never_raises [where e = "test_env (Inr []) (Inr [])
             (Inr (PDict [(ascii ''status'', PInt 400),
                          (ascii ''data'', PDict [(ascii ''detail'', PInt 7)])]))"
      and u = "ascii ''u''" and d = PNone and t = 5 and w = empty_world and f = priv_parser
      and x = TypeError and st = "PInt 400" and dv = "PInt 7"
      and kvs = "[(ascii ''status'', PInt 400),
                          (ascii ''data'', PDict [(ascii ''detail'', PInt 7)])]"
      and dkvs = "[(ascii ''detail'', PInt 7)]"]
  by (simp add: decoded_response_def test_env_def empty_world_def ascii_def
      interpret_response_def priv_parser_def and_then_def)

text \<open>
  C10: for a decoded response whose status is not 200 and whose data has a truthy
  detail field, \<^verbatim>\<open>_post_and_parse\<close> without a detail parser fails its assertion inside
  the last \<^verbatim>\<open>try\<close> and returns the message of that block with no retry list.
\<close>

theorem post_and_parse_without_parser:
  "decoded_response e u d t w = Some (PDict kvs) \<Longrightarrow>
   map_of kvs (ascii ''status'') = Some st \<Longrightarrow> \<not> eq_int st 200 \<Longrightarrow>
   map_of kvs (ascii ''data'') = Some (PDict dkvs) \<Longrightarrow>
   map_of dkvs (ascii ''detail'') = Some dv \<Longrightarrow> truthy dv \<Longrightarrow>
   interpret_response (PDict kvs) None = Inl AssertionError \<and>
   fst (priv_post_and_parse e u d t None w) = Inr (PStr msg_parse_failed, None)"
  using interpret_detail [of kvs st dkvs dv None]
  by (simp add: post_and_parse_decoded)

theorem post_and_parse_without_parser_witness:
  "fst (priv_post_and_parse
          (test_env (Inr []) (Inr [])
             (Inr (PDict [(ascii ''status'', PInt 400),
                          (ascii ''data'', PDict [(ascii ''detail'',
                             PList [PList [PStr (ascii ''u1''), PStr (ascii ''fail'')]])])])))
          (ascii ''u'') PNone 5 None empty_world) = Inr (PStr msg_parse_failed, None)"
  using post_and_parse_without_parser [where e = "test_env (Inr []) (Inr [])
             (Inr (PDict [(ascii ''status'', PInt 400),
                          (ascii ''data'', PDict [(ascii ''detail'',
                             PList [PList [PStr (ascii ''u1''), PStr (ascii ''fail'')]])])]))"
      and u = "ascii ''u''" and d = PNone and t = 5 and w = empty_world and st = "PInt 400"
      and kvs = "[(ascii ''status'', PInt 400),
                          (ascii ''data'', PDict [(ascii ''detail'',
                             PList [PList [PStr (ascii ''u1''), PStr (ascii ''fail'')]])])]"
      and dkvs = "[(ascii ''detail'',
                             PList [PList [PStr (ascii ''u1''), PStr (ascii ''fail'')]])]"
      and dv = "PList [PList [PStr (ascii ''u1''), PStr (ascii ''fail'')]]"]
  by (simp add: decoded_response_def test_env_def empty_world_def ascii_def)

section \<open>Properties of the deferred-call wrapper and of the entry point\<close>

text \<open>
  C6: when multithreaded dispatch is requested and enabled, calling what \<^verbatim>\<open>_get_caller\<close>
  returns leaves the world of the wrapped function untouched and returns \<^verbatim>\<open>None\<close>
  after registering one job with trigger \<open>date\<close>, the function and its arguments, to
  run at the given \<^verbatim>\<open>datetime\<close>, at the clock reading plus the given \<^verbatim>\<open>timedelta\<close>, or
  at the clock reading plus five seconds (whenever that sum is a \<^verbatim>\<open>datetime\<close>). When
  dispatch is not requested or not enabled, \<^verbatim>\<open>_get_caller\<close> returns the function itself:
  the call runs it on the world and returns its result.
\<close>

theorem get_caller_spec:
  "(mt \<and> multithread cfg \<longrightarrow>
      priv_get_caller e cfg func mt (At_datetime t) args s =
        (Inr PNone,
         s\<lparr>jobs := jobs s @
            [\<lparr>job_func = func, job_trigger = ascii ''date'', job_args = args,
              job_next_run_time = t\<rparr>]\<rparr>) \<and>
      (0 \<le> now e (clock_reads s) + d \<and> now e (clock_reads s) + d < datetime_end \<longrightarrow>
         priv_get_caller e cfg func mt (After_timedelta d) args s =
           (Inr PNone,
            s\<lparr>clock_reads := Suc (clock_reads s),
              jobs := jobs s @
                [\<lparr>job_func = func, job_trigger = ascii ''date'', job_args = args,
                  job_next_run_time = now e (clock_reads s) + d\<rparr>]\<rparr>)) \<and>
      (0 \<le> now e (clock_reads s) + 5000000 \<and>
       now e (clock_reads s) + 5000000 < datetime_end \<longrightarrow>
         priv_get_caller e cfg func mt Unset args s =
           (Inr PNone,
            s\<lparr>clock_reads := Suc (clock_reads s),
              jobs := jobs s @
                [\<lparr>job_func = func, job_trigger = ascii ''date'', job_args = args,
                  job_next_run_time = now e (clock_reads s) + 5000000\<rparr>]\<rparr>)) \<and>
      world_of (snd (priv_get_caller e cfg func mt next_run_time args s)) = world_of s) \<and>
   (\<not> (mt \<and> multithread cfg) \<longrightarrow>
      priv_get_caller e cfg func mt next_run_time = run_inline func \<and>
      priv_get_caller e cfg func mt next_run_time args s =
        (fst (func args (world_of s)), s\<lparr>world_of := snd (func args (world_of s))\<rparr>))"
proof (intro conjI impI)
  assume "mt \<and> multithread cfg"
  then show "world_of (snd (priv_get_caller e cfg func mt next_run_time args s)) = world_of s"
    by (cases next_run_time)
       (simp_all add: priv_get_caller_def add_job_def run_after_def Let_def split: sum.splits)
qed (simp_all add: priv_get_caller_def add_job_def run_after_def run_inline_def datetime_add_def
      Let_def split: prod.splits)

theorem get_caller_spec_witness:
  "priv_get_caller (test_env (Inr []) (Inr []) (Inr PNone)) test_config
      (\<lambda>a w. (Inr (PInt a), Suc w)) True (After_timedelta (10 * 1000000)) 7
      \<lparr>world_of = 0, jobs = [], clock_reads = 0\<rparr> =
     (Inr PNone,
      \<lparr>world_of = 0,
       jobs = [\<lparr>job_func = (\<lambda>a w. (Inr (PInt a), Suc w)), job_trigger = ascii ''date'',
                job_args = 7, job_next_run_time = 10000000\<rparr>],
       clock_reads = 1\<rparr>) \<and>
   priv_get_caller (test_env (Inr []) (Inr []) (Inr PNone)) test_config
      (\<lambda>a w. (Inr (PInt a), Suc w)) False (After_timedelta (10 * 1000000)) 7
      \<lparr>world_of = 0, jobs = [], clock_reads = 0\<rparr> =
     (Inr (PInt 7), \<lparr>world_of = 1, jobs = [], clock_reads = 0\<rparr>)"
  using
    get_caller_spec [where e = "test_env (Inr []) (Inr []) (Inr PNone)" and cfg = test_config
      and func = "\<lambda>a w. (Inr (PInt a), Suc w)" and mt = True and d = "10 * 1000000"
      and args = 7 and s = "\<lparr>world_of = 0, jobs = [], clock_reads = 0\<rparr>"]
    get_caller_spec [where e = "test_env (Inr []) (Inr []) (Inr PNone)" and cfg = test_config
      and func = "\<lambda>a w. (Inr (PInt a), Suc w)" and mt = False
      and next_run_time = "After_timedelta (10 * 1000000)"
      and args = 7 and s = "\<lparr>world_of = 0, jobs = [], clock_reads = 0\<rparr>"]
  by (simp add: test_env_def test_config_def datetime_end_def run_inline_def)

text \<open>
  C7: when the filter leaves no recipient, \<^verbatim>\<open>send_wechat\<close> returns \<^verbatim>\<open>None\<close> without an
  exception; it logs one warning, posts nothing, schedules nothing and calls the sender
  for no batch.
\<close>

theorem send_wechat_no_users:
  "priv_get_available_users cfg users = [] \<Longrightarrow>
   send_wechat e cfg users message api_path card_flag url btntxt dflt mt retry_times s =
     (Inr PNone,
      s\<lparr>world_of := (world_of s)\<lparr>logs := logs (world_of s) @ [Warning_no_users]\<rparr>\<rparr>, [])"
  by (simp add: send_wechat_def log_add_def)

theorem send_wechat_no_users_witness:
  "send_wechat (test_env (Inr []) (Inr []) (Inr PNone))
     (test_config\<lparr>receivers := Some {ascii ''1'', ascii ''2''}\<rparr>)
     [IdInt 3] (ascii ''hello'') [] True None None True True 1 idle_system =
     (Inr PNone,
      \<lparr>world_of = \<lparr>posts = [], logs = [Warning_no_users], calls = []\<rparr>, jobs = [],
       clock_reads = 0\<rparr>, [])"
  using send_wechat_no_users [where e = "test_env (Inr []) (Inr []) (Inr PNone)"
      and cfg = "test_config\<lparr>receivers := Some {ascii ''1'', ascii ''2''}\<rparr>"
      and users = "[IdInt 3]" and message = "ascii ''hello''" and api_path = "[]"
      and card_flag = True and url = None and btntxt = None and dflt = True and mt = True
      and retry_times = 1 and s = idle_system]
  by (simp add: priv_get_available_users_def test_config_def idle_system_def empty_world_def
      ascii_def str_int_def digits.simps)

lemma call_batches_prefix:
  "call_batches caller as s = (res, s1, called) \<Longrightarrow>
   prefix called as \<and> (\<forall>r. res = Inr r \<longrightarrow> called = as)"
proof (induction as arbitrary: s res s1 called)
  case Nil
  then show ?case by simp
next
  case (Cons a as)
  obtain r0 s0 where c: "caller a s = (r0, s0)" by (cases "caller a s")
  show ?case
  proof (cases r0)
    case (Inl x)
    with c Cons.prems show ?thesis by auto
  next
    case (Inr v)
    obtain res2 s2 called2 where rec: "call_batches caller as s0 = (res2, s2, called2)"
      by (cases "call_batches caller as s0")
    from Cons.IH [OF rec] c Inr rec Cons.prems show ?thesis by auto
  qed
qed

lemma concat_slices:
  "concat (map (\<lambda>k. take n (drop (k * n) xs)) [0 ..< m]) = take (m * n) xs"
proof (induction m)
  case 0
  then show ?case by simp
next
  case (Suc m)
  have "take (m * n) xs @ take n (drop (m * n) xs) = take (m * n + n) xs"
    by (simp add: take_add)
  with Suc show ?case by (simp add: add.commute)
qed

lemma ceil_covers: "0 < n \<Longrightarrow> (l::nat) \<le> ((l + n - 1) div n) * n"
proof -
  assume n: "0 < n"
  have "l + n - 1 < ((l + n - 1) div n) * n + n"
    using n by (metis add.commute div_mult_mod_eq add_less_cancel_left mod_less_divisor mult.commute)
  with n show ?thesis by linarith
qed

lemma range_step_slices:
  assumes "py_range_step (length xs) step = Inr starts"
  shows "(\<forall>i \<in> set starts. set (take (nat step) (drop i xs)) \<subseteq> set xs \<and>
            int (length (take (nat step) (drop i xs))) \<le> step) \<and>
         (0 < step \<longrightarrow> concat (map (\<lambda>i. take (nat step) (drop i xs)) starts) = xs)"
proof (cases "0 < step")
  case False
  with assms have "starts = []" by (auto simp: py_range_step_def split: if_splits)
  then show ?thesis using False by simp
next
  case True
  let ?n = "nat step"
  from True have n: "0 < ?n" by simp
  from True assms have st: "starts = map (\<lambda>k. k * ?n) [0 ..< (length xs + ?n - 1) div ?n]"
    by (auto simp: py_range_step_def)
  have sub: "\<And>i. set (take ?n (drop i xs)) \<subseteq> set xs"
    by (meson set_take_subset set_drop_subset subset_trans)
  have len: "\<And>i. int (length (take ?n (drop i xs))) \<le> step"
    using True by simp
  have "concat (map (\<lambda>i. take ?n (drop i xs)) starts) =
        take (((length xs + ?n - 1) div ?n) * ?n) xs"
    unfolding st by (simp add: o_def concat_slices)
  also have "\<dots> = xs" using ceil_covers [OF n, of "length xs"] by simp
  finally show ?thesis using sub len by blast
qed


lemma prefix_concat_map: "prefix xs ys \<Longrightarrow> prefix (concat (map f xs)) (concat (map f ys))"
  by (auto simp: prefix_def)

lemma deferred_call:
  "mt \<and> multithread cfg \<Longrightarrow> priv_get_caller e cfg f mt Unset a s = (Inr r, s1) \<Longrightarrow>
     map job_args (jobs s1) = map job_args (jobs s) @ [a]"
  by (auto simp: priv_get_caller_def run_after_def add_job_def Let_def split: sum.splits)

lemma call_batches_jobs:
  assumes d: "mt \<and> multithread cfg"
  shows "call_batches (priv_get_caller e cfg f mt Unset) as s = (Inr r, s1, called) \<Longrightarrow>
         map job_args (jobs s1) = map job_args (jobs s) @ as"
proof (induction as arbitrary: s s1 called r)
  case Nil
  then show ?case by simp
next
  case (Cons a as)
  obtain r0 s0 where c: "priv_get_caller e cfg f mt Unset a s = (r0, s0)"
    by (cases "priv_get_caller e cfg f mt Unset a s")
  show ?case
  proof (cases r0)
    case (Inl x)
    with c Cons.prems show ?thesis by simp
  next
    case (Inr v)
    obtain res2 s2 called2 where
      rec: "call_batches (priv_get_caller e cfg f mt Unset) as s0 = (res2, s2, called2)"
      by (cases "call_batches (priv_get_caller e cfg f mt Unset) as s0")
    with c Inr Cons.prems have "res2 = Inr r" "s2 = s1" by simp_all
    with rec Cons.IH have "map job_args (jobs s1) = map job_args (jobs s0) @ as" by blast
    moreover from c Inr have "priv_get_caller e cfg f mt Unset a s = (Inr v, s0)" by simp
    from deferred_call [OF d this]
    have "map job_args (jobs s0) = map job_args (jobs s) @ [a]" .
    ultimately show ?thesis by simp
  qed
qed


text \<open>
  C5, with coverage stated for the calls it holds for: in every call of \<^verbatim>\<open>send_wechat\<close>, each recipient list handed to the
  sender is drawn from the filtered request (so from the string forms of the given
  identifiers) and is no longer than the configured batch size; the lists, in order,
  form a prefix of the filtered list, and the whole of it when the configured batch size
  is positive and the call returns without an exception. When dispatch is deferred and
  the call returns normally, the jobs it has registered hold exactly these arguments.
\<close>

theorem send_wechat_batches:
  assumes "send_wechat e cfg users message api_path card_flag url btntxt dflt mt retry_times s
             = (res, s1, called)"
  shows "(\<forall>a \<in> set called.
            set (arg_users a) \<subseteq> set (priv_get_available_users cfg users) \<and>
            set (arg_users a) \<subseteq> str ` set users \<and>
            int (length (arg_users a)) \<le> send_batch cfg) \<and>
         prefix (concat (map arg_users called)) (priv_get_available_users cfg users) \<and>
         ((\<exists>r. res = Inr r) \<and> 0 < send_batch cfg \<longrightarrow>
            concat (map arg_users called) = priv_get_available_users cfg users) \<and>
         ((\<exists>r. res = Inr r) \<and> mt \<and> multithread cfg \<longrightarrow>
            map job_args (jobs s1) = map job_args (jobs s) @ called)"
proof -
  let ?F = "priv_get_available_users cfg users"
  have F: "set ?F \<subseteq> str ` set users"
    unfolding filtered_set by (auto split: option.splits)
  show ?thesis
  proof (cases "?F = []")
    case True
    with assms have "called = []" "jobs s1 = jobs s" by (auto simp: send_wechat_def)
    with True show ?thesis by simp
  next
    case False
    show ?thesis
    proof (cases "py_range_step (length ?F) (send_batch cfg)")
      case (Inl x)
      with False assms have "called = []" "res = Inl x"
        by (simp_all add: send_wechat_def Let_def)
      then show ?thesis by simp
    next
      case (Inr starts)
      let ?n = "nat (send_batch cfg)"
      let ?caller = "priv_get_caller e cfg (priv_send_wechat e cfg) mt Unset"
      from False Inr assms obtain mk where
        cb: "call_batches ?caller (map mk starts) s = (res, s1, called)" and
        mk: "\<And>i. arg_users (mk i) = take ?n (drop i ?F)"
        by (simp add: send_wechat_def Let_def)
      from call_batches_prefix [OF cb] have
        pre: "prefix called (map mk starts)" and
        full: "\<And>r. res = Inr r \<Longrightarrow> called = map mk starts" by auto
      note sl = range_step_slices [OF Inr]
      have each: "\<forall>a \<in> set called.
            set (arg_users a) \<subseteq> set ?F \<and> int (length (arg_users a)) \<le> send_batch cfg"
      proof
        fix a assume "a \<in> set called"
        with pre have "a \<in> set (map mk starts)" using set_mono_prefix by blast
        then obtain i where "i \<in> set starts" "a = mk i" by auto
        with sl mk show "set (arg_users a) \<subseteq> set ?F \<and> int (length (arg_users a)) \<le> send_batch cfg"
          by simp
      qed
      have us: "map arg_users (map mk starts) = map (\<lambda>i. take ?n (drop i ?F)) starts"
        by (simp add: mk)
      have whole: "0 < send_batch cfg \<Longrightarrow> concat (map arg_users (map mk starts)) = ?F"
        unfolding us using sl by simp
      have p: "prefix (concat (map arg_users called)) ?F"
      proof (cases "0 < send_batch cfg")
        case True
        from prefix_concat_map [OF pre, of arg_users] whole [OF True] show ?thesis by simp
      next
        case False
        with Inr have "starts = []" by (auto simp: py_range_step_def split: if_splits)
        with pre show ?thesis by simp
      qed
      have j: "(\<exists>r. res = Inr r) \<and> mt \<and> multithread cfg \<longrightarrow>
            map job_args (jobs s1) = map job_args (jobs s) @ called"
      proof
        assume a: "(\<exists>r. res = Inr r) \<and> mt \<and> multithread cfg"
        then obtain r where r: "res = Inr r" by blast
        from a have d: "mt \<and> multithread cfg" by simp
        from call_batches_jobs [OF d, of e "priv_send_wechat e cfg" "map mk starts" s r s1 called]
          cb r full [OF r]
        show "map job_args (jobs s1) = map job_args (jobs s) @ called" by simp
      qed
      from each F p full whole j show ?thesis by blast
    qed
  qed
qed

theorem send_wechat_batches_witness:
  "fst (send_wechat (test_env (Inr []) (Inr []) (Inr PNone)) test_config
          [IdInt 1, IdInt 2, IdInt 3] (ascii ''hi'') [] True None None True True 1
          idle_system) = Inr PNone \<and>
   concat (map arg_users (snd (snd
     (send_wechat (test_env (Inr []) (Inr []) (Inr PNone)) test_config
        [IdInt 1, IdInt 2, IdInt 3] (ascii ''hi'') [] True None None True True 1
        idle_system)))) = [ascii ''1'', ascii ''2'', ascii ''3''] \<and>
   list_all (\<lambda>a. length (arg_users a) \<le> 2) (snd (snd
     (send_wechat (test_env (Inr []) (Inr []) (Inr PNone)) test_config
        [IdInt 1, IdInt 2, IdInt 3] (ascii ''hi'') [] True None None True True 1
        idle_system)))"
proof -
  let ?r = "send_wechat (test_env (Inr []) (Inr []) (Inr PNone)) test_config
          [IdInt 1, IdInt 2, IdInt 3] (ascii ''hi'') [] True None None True True 1
          idle_system"
  have v: "?r = (fst ?r, fst (snd ?r), snd (snd ?r))" by simp
  have F: "priv_get_available_users test_config [IdInt 1, IdInt 2, IdInt 3] =
             [ascii ''1'', ascii ''2'', ascii ''3'']" by code_simp
  have c: "send_batch test_config = 2" "multithread test_config" "retry test_config"
    by (simp_all add: test_config_def)
  have st: "py_range_step (Suc (Suc (Suc 0))) 2 = Inr [0, 2]"
    by (simp add: py_range_step_def upt_rec)
  have ok: "fst ?r = Inr PNone"
    by (simp add: send_wechat_def F st c Let_def priv_get_caller_def run_after_def
        datetime_add_def datetime_end_def add_job_def test_env_def idle_system_def)
  from send_wechat_batches [OF v] ok F c(1) show ?thesis
    by (simp add: list_all_iff)
qed

text \<open>
  C5, the wording that the batches of every call cover the filtered list, does not
  hold: run inline with batches of two, a reply that names the
  integer 1 as the recipient to retry makes the listing of the retry list raise
  \<^verbatim>\<open>TypeError\<close> during the first batch, and the second batch is never handed to the
  sender; with a batch size of -1 the call returns normally and hands over nothing.
\<close>

theorem send_wechat_batches_counterexample:
  "fst (send_wechat
          (test_env (Inr []) (Inr [])
             (Inr (PDict [(ascii ''status'', PInt 400),
                          (ascii ''data'', PDict [(ascii ''detail'',
                             PList [PList [PInt 1, PStr (ascii ''fail'')]])])])))
          (test_config\<lparr>multithread := False\<rparr>)
          [IdInt 1, IdInt 2, IdInt 3] (ascii ''hi'') [] True None None True True 1
          idle_system) = Inl TypeError \<and>
   map arg_users (snd (snd (send_wechat
          (test_env (Inr []) (Inr [])
             (Inr (PDict [(ascii ''status'', PInt 400),
                          (ascii ''data'', PDict [(ascii ''detail'',
                             PList [PList [PInt 1, PStr (ascii ''fail'')]])])])))
          (test_config\<lparr>multithread := False\<rparr>)
          [IdInt 1, IdInt 2, IdInt 3] (ascii ''hi'') [] True None None True True 1
          idle_system))) = [[ascii ''1'', ascii ''2'']] \<and>
   priv_get_available_users (test_config\<lparr>multithread := False\<rparr>)
     [IdInt 1, IdInt 2, IdInt 3] = [ascii ''1'', ascii ''2'', ascii ''3''] \<and>
   send_wechat (test_env (Inr []) (Inr []) (Inr (PDict [(ascii ''status'', PInt 200)])))
     (test_config\<lparr>send_batch := - 1\<rparr>)
     [IdInt 1, IdInt 2, IdInt 3] (ascii ''hi'') [] True None None True True 1
     idle_system = (Inr PNone, idle_system, []) \<and>
   priv_get_available_users (test_config\<lparr>send_batch := - 1\<rparr>)
     [IdInt 1, IdInt 2, IdInt 3] = [ascii ''1'', ascii ''2'', ascii ''3'']"
proof -
  let ?bad = "test_env (Inr []) (Inr [])
             (Inr (PDict [(ascii ''status'', PInt 400),
                          (ascii ''data'', PDict [(ascii ''detail'',
                             PList [PList [PInt 1, PStr (ascii ''fail'')]])])]))"
  let ?ok = "test_env (Inr []) (Inr []) (Inr (PDict [(ascii ''status'', PInt 200)]))"
  let ?sync = "test_config\<lparr>multithread := False\<rparr>"
  let ?neg = "test_config\<lparr>send_batch := - 1\<rparr>"
  have F1: "priv_get_available_users ?sync [IdInt 1, IdInt 2, IdInt 3] =
              [ascii ''1'', ascii ''2'', ascii ''3'']"
    by (simp add: test_config_def) code_simp
  have F2: "priv_get_available_users ?neg [IdInt 1, IdInt 2, IdInt 3] =
              [ascii ''1'', ascii ''2'', ascii ''3'']"
    by (simp add: test_config_def) code_simp
  have c1: "send_batch ?sync = 2" "\<not> multithread ?sync" "retry ?sync"
    by (simp_all add: test_config_def)
  have c2: "send_batch ?neg = - 1"
    by (simp_all add: test_config_def)
  have st: "py_range_step (Suc (Suc (Suc 0))) 2 = Inr [0, 2]"
    by (simp add: py_range_step_def upt_rec)
  have pp: "\<And>d t w0. priv_post_and_parse ?bad (ascii ''http://api'') d t
                (Some priv_parser) w0 =
              returned (PStr (ascii ''fail''), Some [PInt 1]) d
                (w0\<lparr>posts := posts w0 @
                   [\<lparr>req_url = ascii ''http://api'', req_body = [],
                     req_timeout = t\<rparr>]\<rparr>)"
    by (simp add: priv_post_and_parse_def test_env_def interpret_response_def
        priv_parser_def and_then_def ascii_def)
  have bu: "build_full_url ?bad [] (Some (api_url test_config)) = ascii ''http://api''"
    by (simp add: test_env_def test_config_def)
  have raise: "\<And>a w0. arg_retry_times a = 1 \<Longrightarrow> arg_api_url a = ascii ''http://api'' \<Longrightarrow>
      fst (priv_send_wechat ?bad ?sync a w0) = Inl TypeError"
  proof -
    fix a :: send_args and w0 :: world
    assume r: "arg_retry_times a = 1" and u: "arg_api_url a = ascii ''http://api''"
    obtain lu where lu: "priv_log_users (map PStr (arg_users a)) = Inr lu"
      using log_users_strings by blast
    have lr: "priv_log_users [PInt 1] = Inl TypeError" by (simp add: priv_log_users_def)
    have ne: "PStr (ascii ''fail'') \<noteq> PNone" by simp
    show "fst (priv_send_wechat ?bad ?sync a w0) = Inl TypeError"
      unfolding priv_send_wechat_def r u
      by (simp add: pp returned_def lu lr)
  qed
  have A: "fst (send_wechat ?bad ?sync [IdInt 1, IdInt 2, IdInt 3] (ascii ''hi'') [] True
                  None None True True 1 idle_system) = Inl TypeError"
    by (simp add: send_wechat_def F1 st c1 bu Let_def priv_get_caller_def run_inline_def
        case_prod_beta raise)
  have B: "map arg_users (snd (snd (send_wechat ?bad ?sync [IdInt 1, IdInt 2, IdInt 3]
                  (ascii ''hi'') [] True None None True True 1 idle_system))) =
             [[ascii ''1'', ascii ''2'']]"
    by (simp add: send_wechat_def F1 st c1 bu Let_def priv_get_caller_def run_inline_def
        case_prod_beta raise)
  have C: "send_wechat ?ok ?neg [IdInt 1, IdInt 2, IdInt 3] (ascii ''hi'') [] True None None
             True True 1 idle_system = (Inr PNone, idle_system, [])"
    by (simp add: send_wechat_def F2 c2 Let_def py_range_step_def)
  from A B F1 C F2 show ?thesis by simp
qed

section \<open>Properties of the batched retrying sender\<close>

lemma pp_effect:
  "\<exists>r new. priv_post_and_parse e u d t p w =
      (Inr r, w\<lparr>posts := posts w @ new, calls := calls w @ [(d, r)]\<rparr>) \<and>
      length new = (if isl (json_dumps e d) then 0 else 1) \<and>
      (snd r \<noteq> None \<longrightarrow> length new = 1)"
proof (cases "json_dumps e d")
  case (Inl x)
  show ?thesis
    by (rule exI [of _ "(PStr msg_encode_failed, None)"], rule exI [of _ "[]"])
       (simp add: priv_post_and_parse_def returned_def Inl)
next
  case (Inr body)
  let ?rq = "\<lparr>req_url = u, req_body = body, req_timeout = t\<rparr>"
  have "\<exists>r. priv_post_and_parse e u d t p w =
      (Inr r, w\<lparr>posts := posts w @ [?rq], calls := calls w @ [(d, r)]\<rparr>)"
    by (simp add: priv_post_and_parse_def returned_def Inr Let_def
        split: sum.splits)
  then obtain r where "priv_post_and_parse e u d t p w =
      (Inr r, w\<lparr>posts := posts w @ [?rq], calls := calls w @ [(d, r)]\<rparr>)" by blast
  then show ?thesis
    by (intro exI [of _ r] exI [of _ "[?rq]"]) (simp add: Inr)
qed

lemma trace_single:
  "0 < n \<Longrightarrow> sent = (if isl (json_dumps e (PDict pd)) then 0 else 1) \<Longrightarrow>
   (m = PNone \<or> retr = None \<or> (\<exists>x. res = Inl x)) \<Longrightarrow>
   ((\<forall>r. m \<noteq> PNone \<and> retr = Some r \<longrightarrow> (\<exists>s. priv_log_users r = Inr s)) \<longrightarrow> res = Inr PNone) \<Longrightarrow>
   trace_ok e n pd res sent [(PDict pd, m, retr)]"
  by (auto simp: trace_ok_def)

lemma trace_cons:
  assumes t: "trace_ok e n (AList.update (ascii ''touser'') (PList r) pd) res sent new"
    and m: "m \<noteq> PNone" and l: "priv_log_users r = Inr lr"
    and s: "sent1 = (if isl (json_dumps e (PDict pd)) then 0 else 1)"
  shows "trace_ok e (Suc n) pd res (sent1 + sent) ((PDict pd, m, Some r) # new)"
proof -
  let ?c = "(PDict pd, m, Some r)"
  let ?new = "?c # new"
  from t have len: "length new \<le> n"
    and sn: "sent = length (filter (\<lambda>c. \<not> isl (json_dumps e (fst c))) new)"
    and h: "new \<noteq> [] \<longrightarrow> fst (new ! 0) = PDict (AList.update (ascii ''touser'') (PList r) pd)"
    and ch: "\<forall>k. Suc k < length new \<longrightarrow>
        (\<exists>kvs m r. new ! k = (PDict kvs, m, Some r) \<and> m \<noteq> PNone \<and>
           fst (new ! Suc k) = PDict (AList.update (ascii ''touser'') (PList r) kvs))"
    and ne: "0 < n \<longrightarrow> new \<noteq> []"
    and last: "\<forall>k. Suc k = length new \<and> length new < n \<longrightarrow>
        fst (snd (new ! k)) = PNone \<or> snd (snd (new ! k)) = None \<or> (\<exists>x. res = Inl x)"
    and ok: "(\<forall>k r. k < length new \<and> fst (snd (new ! k)) \<noteq> PNone \<and> snd (snd (new ! k)) = Some r
          \<longrightarrow> (\<exists>s. priv_log_users r = Inr s)) \<longrightarrow> res = Inr PNone"
    by (simp_all add: trace_ok_def)
  have 1: "length ?new \<le> Suc n" using len by simp
  have 2: "sent1 + sent = length (filter (\<lambda>c. \<not> isl (json_dumps e (fst c))) ?new)"
    using sn s by simp
  have 3: "?new \<noteq> [] \<longrightarrow> fst (?new ! 0) = PDict pd" by simp
  have 4: "\<forall>k. Suc k < length ?new \<longrightarrow>
        (\<exists>kvs m r. ?new ! k = (PDict kvs, m, Some r) \<and> m \<noteq> PNone \<and>
           fst (?new ! Suc k) = PDict (AList.update (ascii ''touser'') (PList r) kvs))"
  proof (intro allI impI)
    fix k assume k: "Suc k < length ?new"
    show "\<exists>kvs m r. ?new ! k = (PDict kvs, m, Some r) \<and> m \<noteq> PNone \<and>
           fst (?new ! Suc k) = PDict (AList.update (ascii ''touser'') (PList r) kvs)"
    proof (cases k)
      case 0
      with k have "new \<noteq> []" by auto
      with h 0 m show ?thesis by simp
    next
      case (Suc j)
      with k have "Suc j < length new" by simp
      with ch Suc show ?thesis by simp
    qed
  qed
  have 5: "0 < Suc n \<longrightarrow> ?new \<noteq> []" by simp
  have 6: "\<forall>k. Suc k = length ?new \<and> length ?new < Suc n \<longrightarrow>
        fst (snd (?new ! k)) = PNone \<or> snd (snd (?new ! k)) = None \<or> (\<exists>x. res = Inl x)"
  proof (intro allI impI)
    fix k assume a: "Suc k = length ?new \<and> length ?new < Suc n"
    then have "length new < n" by simp
    with ne have "new \<noteq> []" by auto
    with a obtain j where j: "k = Suc j" "Suc j = length new" by (cases k) auto
    from j(1) have e: "?new ! k = new ! j" by simp
    from last j \<open>length new < n\<close> have
      "fst (snd (new ! j)) = PNone \<or> snd (snd (new ! j)) = None \<or> (\<exists>x. res = Inl x)"
      by blast
    then show
      "fst (snd (?new ! k)) = PNone \<or> snd (snd (?new ! k)) = None \<or> (\<exists>x. res = Inl x)"
      unfolding e .
  qed
  have 7: "(\<forall>k r. k < length ?new \<and> fst (snd (?new ! k)) \<noteq> PNone \<and>
              snd (snd (?new ! k)) = Some r \<longrightarrow> (\<exists>s. priv_log_users r = Inr s))
           \<longrightarrow> res = Inr PNone"
  proof
    assume a: "\<forall>k r. k < length ?new \<and> fst (snd (?new ! k)) \<noteq> PNone \<and>
              snd (snd (?new ! k)) = Some r \<longrightarrow> (\<exists>s. priv_log_users r = Inr s)"
    have "\<forall>k r. k < length new \<and> fst (snd (new ! k)) \<noteq> PNone \<and> snd (snd (new ! k)) = Some r
          \<longrightarrow> (\<exists>s. priv_log_users r = Inr s)"
    proof (intro allI impI)
      fix k r'
      assume "k < length new \<and> fst (snd (new ! k)) \<noteq> PNone \<and> snd (snd (new ! k)) = Some r'"
      then have "Suc k < length ?new \<and> fst (snd (?new ! Suc k)) \<noteq> PNone \<and>
                 snd (snd (?new ! Suc k)) = Some r'" by simp
      with a show "\<exists>s. priv_log_users r' = Inr s" by blast
    qed
    with ok show "res = Inr PNone" by blast
  qed
  from 1 2 3 4 5 6 7 show ?thesis unfolding trace_ok_def by blast
qed


lemma send_attempts_trace:
  "\<exists>new. calls (snd (send_attempts e cfg us url n pd w)) = calls w @ new \<and>
     trace_ok e n pd (fst (send_attempts e cfg us url n pd w))
       (length (posts (snd (send_attempts e cfg us url n pd w))) - length (posts w)) new \<and>
     length (posts w) \<le> length (posts (snd (send_attempts e cfg us url n pd w)))"
proof (induction n arbitrary: pd w)
  case 0
  show ?case by (simp add: trace_ok_def)
next
  case (Suc n)
  obtain res new1 where
    pp: "priv_post_and_parse e url (PDict pd) (timeout cfg) (Some priv_parser) w =
      (Inr res, w\<lparr>posts := posts w @ new1, calls := calls w @ [(PDict pd, res)]\<rparr>)" and
    l1: "length new1 = (if isl (json_dumps e (PDict pd)) then 0 else 1)"
    using pp_effect [of e url "PDict pd" "timeout cfg" "Some priv_parser" w] by blast
  let ?w1 = "w\<lparr>posts := posts w @ new1, calls := calls w @ [(PDict pd, res)]\<rparr>"
  obtain m retr where res: "res = (m, retr)" by (cases res)
  obtain lu where lu: "priv_log_users (map PStr us) = Inr lu"
    using log_users_strings by blast
  let ?out = "send_attempts e cfg us url (Suc n) pd w"
  have single: "calls (snd ?out) = calls w @ [(PDict pd, res)] \<Longrightarrow>
      posts (snd ?out) = posts w @ new1 \<Longrightarrow>
      (m = PNone \<or> retr = None \<or> (\<exists>x. fst ?out = Inl x)) \<Longrightarrow>
      ((\<forall>r. m \<noteq> PNone \<and> retr = Some r \<longrightarrow> (\<exists>s. priv_log_users r = Inr s))
         \<longrightarrow> fst ?out = Inr PNone) \<Longrightarrow> ?case"
  proof -
    assume c: "calls (snd ?out) = calls w @ [(PDict pd, res)]"
      and p: "posts (snd ?out) = posts w @ new1"
      and a: "m = PNone \<or> retr = None \<or> (\<exists>x. fst ?out = Inl x)"
      and b: "(\<forall>r. m \<noteq> PNone \<and> retr = Some r \<longrightarrow> (\<exists>s. priv_log_users r = Inr s))
         \<longrightarrow> fst ?out = Inr PNone"
    have "trace_ok e (Suc n) pd (fst ?out) (length new1) [(PDict pd, m, retr)]"
      using l1 a b by (intro trace_single) simp_all
    with c p res show ?case by (intro exI [of _ "[(PDict pd, res)]"]) simp
  qed
  show ?case
  proof (cases "m = PNone")
    case True
    with pp res lu have "?out = (Inr PNone, log_add (Info_sent lu) ?w1)" by simp
    then show ?thesis using True by (intro single) (simp_all add: log_add_def)
  next
    case False
    note m = this
    show ?thesis
    proof (cases retr)
      case None
      with pp res lu m have "?out = (Inr PNone, log_add (Warning_failed lu m) ?w1)" by simp
      then show ?thesis using None by (intro single) (simp_all add: log_add_def)
    next
      case (Some r)
      show ?thesis
      proof (cases "priv_log_users r")
        case (Inl x)
        with pp res lu m Some have "?out = (Inl x, ?w1)" by simp
        then show ?thesis using Inl Some m by (intro single) simp_all
      next
        case (Inr lr)
        let ?pd = "AList.update (ascii ''touser'') (PList r) pd"
        let ?w2 = "log_add (Warning_partial lu lr m) ?w1"
        let ?rec = "send_attempts e cfg us url n ?pd ?w2"
        from pp res lu m Some Inr have out: "?out = ?rec" by simp
        from Suc.IH [of ?pd ?w2] obtain new where
          c: "calls (snd ?rec) = calls ?w2 @ new" and
          t: "trace_ok e n ?pd (fst ?rec) (length (posts (snd ?rec)) - length (posts ?w2)) new" and
          g: "length (posts ?w2) \<le> length (posts (snd ?rec))"
          by blast
        have pw2: "length (posts ?w2) = length (posts w) + length new1"
          by (simp add: log_add_def)
        from trace_cons [OF t m Inr l1]
        have "trace_ok e (Suc n) pd (fst ?rec)
                (length new1 + (length (posts (snd ?rec)) - length (posts ?w2)))
                ((PDict pd, m, Some r) # new)" .
        moreover have "length new1 + (length (posts (snd ?rec)) - length (posts ?w2))
                         = length (posts (snd ?rec)) - length (posts w)"
          using g pw2 by simp
        ultimately have "trace_ok e (Suc n) pd (fst ?out)
                (length (posts (snd ?out)) - length (posts w)) ((PDict pd, m, Some r) # new)"
          unfolding out by simp
        moreover have "calls (snd ?out) = calls w @ ((PDict pd, m, Some r) # new)"
          using c out res Some by (simp add: log_add_def)
        moreover have "length (posts w) \<le> length (posts (snd ?out))"
          using g pw2 out by simp
        ultimately show ?thesis by blast
      qed
    qed
  qed
qed


lemma send_attempts_always_partial:
  assumes H: "\<And>d w0. fst (priv_post_and_parse e url d (timeout cfg) (Some priv_parser) w0) =
                 Inr (m, Some [PStr u])"
    and m: "m \<noteq> PNone"
  shows "fst (send_attempts e cfg us url n pd w) = Inr PNone \<and>
         length (calls (snd (send_attempts e cfg us url n pd w))) = length (calls w) + n \<and>
         length (posts (snd (send_attempts e cfg us url n pd w))) = length (posts w) + n"
proof (induction n arbitrary: pd w)
  case 0
  show ?case by simp
next
  case (Suc n)
  obtain res new1 where
    pp: "priv_post_and_parse e url (PDict pd) (timeout cfg) (Some priv_parser) w =
      (Inr res, w\<lparr>posts := posts w @ new1, calls := calls w @ [(PDict pd, res)]\<rparr>)" and
    l1: "snd res \<noteq> None \<longrightarrow> length new1 = 1"
    using pp_effect [of e url "PDict pd" "timeout cfg" "Some priv_parser" w] by blast
  from H [of "PDict pd" w] pp have res: "res = (m, Some [PStr u])" by simp
  with l1 have n1: "length new1 = 1" by simp
  obtain lu where lu: "priv_log_users (map PStr us) = Inr lu"
    using log_users_strings by blast
  have lr: "priv_log_users [PStr u] = Inr u" by (simp add: priv_log_users_def)
  let ?pd = "AList.update (ascii ''touser'') (PList [PStr u]) pd"
  let ?w2 = "log_add (Warning_partial lu u m)
               (w\<lparr>posts := posts w @ new1, calls := calls w @ [(PDict pd, res)]\<rparr>)"
  from pp res lu lr m have out:
    "send_attempts e cfg us url (Suc n) pd w = send_attempts e cfg us url n ?pd ?w2"
    by simp
  from Suc.IH [of ?pd ?w2] n1 show ?case
    unfolding out by (simp add: log_add_def)
qed

text \<open>
  C1: a call of \<^verbatim>\<open>_send_wechat\<close> makes at most \<open>retry_times\<close> calls of
  \<^verbatim>\<open>_post_and_parse\<close>, at least one when \<open>retry_times > 0\<close>, the first with the initial
  payload, and posts one request for each call whose payload encodes. Whenever another
  call follows, the one before reported an error message with a retry list, and the
  next payload is the one before with its \<^verbatim>\<open>touser\<close> entry replaced by exactly that
  list. A call that reports success (no error message) or a hard failure (no retry
  list) is the last, and the calls stop short of \<open>retry_times\<close> only after such a
  report or an exception; there is no exception when every reported retry list can be
  listed. With an interpreter that always reports the same single recipient for retry
  there are exactly \<open>retry_times\<close> calls and posts and no exception: exactly 3 for
  \<open>retry_times = 3\<close>.
\<close>

theorem send_wechat_retries:
  "(\<exists>new. calls (snd (priv_send_wechat e cfg a w)) = calls w @ new \<and>
      length new \<le> nat (arg_retry_times a) \<and>
      (0 < arg_retry_times a \<longrightarrow> new \<noteq> []) \<and>
      length (posts (snd (priv_send_wechat e cfg a w))) =
        length (posts w) + length (filter (\<lambda>c. \<not> isl (json_dumps e (fst c))) new) \<and>
      (new \<noteq> [] \<longrightarrow> fst (new ! 0) = PDict (initial_post_data cfg a)) \<and>
      (\<forall>k. Suc k < length new \<longrightarrow>
         (\<exists>kvs m r. new ! k = (PDict kvs, m, Some r) \<and> m \<noteq> PNone \<and>
            fst (new ! Suc k) = PDict (AList.update (ascii ''touser'') (PList r) kvs))) \<and>
      (\<forall>k. k < length new \<and>
            (fst (snd (new ! k)) = PNone \<or> snd (snd (new ! k)) = None) \<longrightarrow>
         Suc k = length new) \<and>
      (\<forall>k. Suc k = length new \<and> length new < nat (arg_retry_times a) \<longrightarrow>
         fst (snd (new ! k)) = PNone \<or> snd (snd (new ! k)) = None \<or>
         (\<exists>x. fst (priv_send_wechat e cfg a w) = Inl x)) \<and>
      ((\<forall>k r. k < length new \<and> fst (snd (new ! k)) \<noteq> PNone \<and>
               snd (snd (new ! k)) = Some r \<longrightarrow> (\<exists>s. priv_log_users r = Inr s)) \<longrightarrow>
         fst (priv_send_wechat e cfg a w) = Inr PNone)) \<and>
   (m \<noteq> PNone \<and>
    (\<forall>d w0. fst (priv_post_and_parse e (arg_api_url a) d (timeout cfg) (Some priv_parser) w0)
              = Inr (m, Some [PStr u])) \<longrightarrow>
      fst (priv_send_wechat e cfg a w) = Inr PNone \<and>
      length (calls (snd (priv_send_wechat e cfg a w))) =
        length (calls w) + nat (arg_retry_times a) \<and>
      length (posts (snd (priv_send_wechat e cfg a w))) =
        length (posts w) + nat (arg_retry_times a)) \<and>
   (arg_retry_times a = 3 \<and> m \<noteq> PNone \<and>
    (\<forall>d w0. fst (priv_post_and_parse e (arg_api_url a) d (timeout cfg) (Some priv_parser) w0)
              = Inr (m, Some [PStr u])) \<longrightarrow>
      fst (priv_send_wechat e cfg a w) = Inr PNone \<and>
      length (calls (snd (priv_send_wechat e cfg a w))) = length (calls w) + 3 \<and>
      length (posts (snd (priv_send_wechat e cfg a w))) = length (posts w) + 3)"
proof -
  let ?n = "nat (arg_retry_times a)"
  let ?out = "send_attempts e cfg (arg_users a) (arg_api_url a) ?n (initial_post_data cfg a) w"
  have o: "priv_send_wechat e cfg a w = ?out" by (simp add: priv_send_wechat_def)
  from send_attempts_trace [of e cfg "arg_users a" "arg_api_url a" ?n "initial_post_data cfg a" w]
  obtain new where
    c: "calls (snd ?out) = calls w @ new" and
    t: "trace_ok e ?n (initial_post_data cfg a) (fst ?out)
          (length (posts (snd ?out)) - length (posts w)) new" and
    g: "length (posts w) \<le> length (posts (snd ?out))"
    by blast
  from t have l: "length new \<le> ?n"
    and p0: "length (posts (snd ?out)) - length (posts w) =
             length (filter (\<lambda>c. \<not> isl (json_dumps e (fst c))) new)"
    and h: "new \<noteq> [] \<longrightarrow> fst (new ! 0) = PDict (initial_post_data cfg a)"
    and ch: "\<forall>k. Suc k < length new \<longrightarrow>
         (\<exists>kvs m r. new ! k = (PDict kvs, m, Some r) \<and> m \<noteq> PNone \<and>
            fst (new ! Suc k) = PDict (AList.update (ascii ''touser'') (PList r) kvs))"
    and ne: "0 < ?n \<longrightarrow> new \<noteq> []"
    and la: "\<forall>k. Suc k = length new \<and> length new < ?n \<longrightarrow>
         fst (snd (new ! k)) = PNone \<or> snd (snd (new ! k)) = None \<or>
         (\<exists>x. fst ?out = Inl x)"
    and ok: "(\<forall>k r. k < length new \<and> fst (snd (new ! k)) \<noteq> PNone \<and>
               snd (snd (new ! k)) = Some r \<longrightarrow> (\<exists>s. priv_log_users r = Inr s)) \<longrightarrow>
         fst ?out = Inr PNone"
    by (simp_all add: trace_ok_def)
  from p0 g have p: "length (posts (snd ?out)) =
      length (posts w) + length (filter (\<lambda>c. \<not> isl (json_dumps e (fst c))) new)"
    by simp
  from ne have ne': "0 < arg_retry_times a \<longrightarrow> new \<noteq> []" by simp
  have stop: "\<forall>k. k < length new \<and>
            (fst (snd (new ! k)) = PNone \<or> snd (snd (new ! k)) = None) \<longrightarrow>
         Suc k = length new"
  proof (intro allI impI)
    fix k
    assume a: "k < length new \<and> (fst (snd (new ! k)) = PNone \<or> snd (snd (new ! k)) = None)"
    show "Suc k = length new"
    proof (rule ccontr)
      assume "Suc k \<noteq> length new"
      with a have "Suc k < length new" by simp
      with ch obtain kvs m r where "new ! k = (PDict kvs, m, Some r)" "m \<noteq> PNone" by blast
      with a show False by simp
    qed
  qed
  have general: "\<exists>new. calls (snd (priv_send_wechat e cfg a w)) = calls w @ new \<and>
      length new \<le> nat (arg_retry_times a) \<and>
      (0 < arg_retry_times a \<longrightarrow> new \<noteq> []) \<and>
      length (posts (snd (priv_send_wechat e cfg a w))) =
        length (posts w) + length (filter (\<lambda>c. \<not> isl (json_dumps e (fst c))) new) \<and>
      (new \<noteq> [] \<longrightarrow> fst (new ! 0) = PDict (initial_post_data cfg a)) \<and>
      (\<forall>k. Suc k < length new \<longrightarrow>
         (\<exists>kvs m r. new ! k = (PDict kvs, m, Some r) \<and> m \<noteq> PNone \<and>
            fst (new ! Suc k) = PDict (AList.update (ascii ''touser'') (PList r) kvs))) \<and>
      (\<forall>k. k < length new \<and>
            (fst (snd (new ! k)) = PNone \<or> snd (snd (new ! k)) = None) \<longrightarrow>
         Suc k = length new) \<and>
      (\<forall>k. Suc k = length new \<and> length new < nat (arg_retry_times a) \<longrightarrow>
         fst (snd (new ! k)) = PNone \<or> snd (snd (new ! k)) = None \<or>
         (\<exists>x. fst (priv_send_wechat e cfg a w) = Inl x)) \<and>
      ((\<forall>k r. k < length new \<and> fst (snd (new ! k)) \<noteq> PNone \<and>
               snd (snd (new ! k)) = Some r \<longrightarrow> (\<exists>s. priv_log_users r = Inr s)) \<longrightarrow>
         fst (priv_send_wechat e cfg a w) = Inr PNone)"
    unfolding o by (intro exI [of _ new] conjI) (rule c l ne' p h ch stop la ok)+
  have every: "m \<noteq> PNone \<and>
    (\<forall>d w0. fst (priv_post_and_parse e (arg_api_url a) d (timeout cfg) (Some priv_parser) w0)
              = Inr (m, Some [PStr u])) \<Longrightarrow>
      fst (priv_send_wechat e cfg a w) = Inr PNone \<and>
      length (calls (snd (priv_send_wechat e cfg a w))) =
        length (calls w) + nat (arg_retry_times a) \<and>
      length (posts (snd (priv_send_wechat e cfg a w))) =
        length (posts w) + nat (arg_retry_times a)"
    unfolding o by (intro send_attempts_always_partial [where m = m and u = u]) simp_all
  have three: "arg_retry_times a = 3 \<and> m \<noteq> PNone \<and>
    (\<forall>d w0. fst (priv_post_and_parse e (arg_api_url a) d (timeout cfg) (Some priv_parser) w0)
              = Inr (m, Some [PStr u])) \<Longrightarrow>
      fst (priv_send_wechat e cfg a w) = Inr PNone \<and>
      length (calls (snd (priv_send_wechat e cfg a w))) = length (calls w) + 3 \<and>
      length (posts (snd (priv_send_wechat e cfg a w))) = length (posts w) + 3"
    using every by simp
  from general every three show ?thesis by blast
qed


theorem send_wechat_retries_witness:
  "fst (priv_send_wechat
          (test_env (Inr []) (Inr [])
             (Inr (PDict [(ascii ''status'', PInt 400),
                          (ascii ''data'', PDict [(ascii ''detail'',
                             PList [PList [PStr (ascii ''u1''), PStr (ascii ''fail'')]])])])))
          test_config
          \<lparr>arg_users = [ascii ''u1''], arg_message = ascii ''hi'',
           arg_api_url = ascii ''http://api/send'', arg_card = False, arg_url = None,
           arg_btntxt = None, arg_retry_times = 3\<rparr>
          empty_world) = Inr PNone \<and>
   length (posts (snd (priv_send_wechat
          (test_env (Inr []) (Inr [])
             (Inr (PDict [(ascii ''status'', PInt 400),
                          (ascii ''data'', PDict [(ascii ''detail'',
                             PList [PList [PStr (ascii ''u1''), PStr (ascii ''fail'')]])])])))
          test_config
          \<lparr>arg_users = [ascii ''u1''], arg_message = ascii ''hi'',
           arg_api_url = ascii ''http://api/send'', arg_card = False, arg_url = None,
           arg_btntxt = None, arg_retry_times = 3\<rparr>
          empty_world))) = 3 \<and>
   length (posts (snd (priv_send_wechat
          (test_env (Inr []) (Inr [])
             (Inr (PDict [(ascii ''status'', PInt 400),
                          (ascii ''data'', PDict [(ascii ''detail'',
                             PList [PList [PStr (ascii ''u1''), PStr (ascii ''fail'')]])])])))
          test_config
          \<lparr>arg_users = [ascii ''u1''], arg_message = ascii ''hi'',
           arg_api_url = ascii ''http://api/send'', arg_card = False, arg_url = None,
           arg_btntxt = None, arg_retry_times = 2\<rparr>
          empty_world))) = 2 \<and>
   length (posts (snd (priv_send_wechat
          (test_env (Inr []) (Inr []) (Inr (PDict [(ascii ''status'', PInt 200)])))
          test_config
          \<lparr>arg_users = [ascii ''u1''], arg_message = ascii ''hi'',
           arg_api_url = ascii ''http://api/send'', arg_card = False, arg_url = None,
           arg_btntxt = None, arg_retry_times = 1\<rparr>
          empty_world))) = 1"
proof -
  let ?e = "test_env (Inr []) (Inr [])
             (Inr (PDict [(ascii ''status'', PInt 400),
                          (ascii ''data'', PDict [(ascii ''detail'',
                             PList [PList [PStr (ascii ''u1''), PStr (ascii ''fail'')]])])]))"
  let ?ok = "test_env (Inr []) (Inr []) (Inr (PDict [(ascii ''status'', PInt 200)]))"
  let ?a = "\<lambda>n. \<lparr>arg_users = [ascii ''u1''], arg_message = ascii ''hi'',
           arg_api_url = ascii ''http://api/send'', arg_card = False, arg_url = None,
           arg_btntxt = None, arg_retry_times = n\<rparr>"
  have H: "\<forall>d w0. fst (priv_post_and_parse ?e (ascii ''http://api/send'') d (timeout test_config)
                        (Some priv_parser) w0)
              = Inr (PStr (ascii ''fail''), Some [PStr (ascii ''u1'')])"
    by (simp add: priv_post_and_parse_def returned_def test_env_def
        interpret_response_def priv_parser_def and_then_def ascii_def)
  have e: "posts empty_world = []" by (simp add: empty_world_def)
  have pre3: "arg_retry_times (?a 3) = 3 \<and> PStr (ascii ''fail'') \<noteq> PNone \<and>
    (\<forall>d w0. fst (priv_post_and_parse ?e (arg_api_url (?a 3)) d (timeout test_config)
                 (Some priv_parser) w0) = Inr (PStr (ascii ''fail''), Some [PStr (ascii ''u1'')]))"
    using H by simp
  have pre2: "PStr (ascii ''fail'') \<noteq> PNone \<and>
    (\<forall>d w0. fst (priv_post_and_parse ?e (arg_api_url (?a 2)) d (timeout test_config)
                 (Some priv_parser) w0) = Inr (PStr (ascii ''fail''), Some [PStr (ascii ''u1'')]))"
    using H by simp
  from send_wechat_retries [where e = ?e and cfg = test_config and a = "?a 3"
      and w = empty_world and m = "PStr (ascii ''fail'')" and u = "ascii ''u1''",
      THEN conjunct2, THEN conjunct2, THEN mp, OF pre3]
  have three: "fst (priv_send_wechat ?e test_config (?a 3) empty_world) = Inr PNone \<and>
      length (posts (snd (priv_send_wechat ?e test_config (?a 3) empty_world))) = 3"
    by (simp add: e)
  from send_wechat_retries [where e = ?e and cfg = test_config and a = "?a 2"
      and w = empty_world and m = "PStr (ascii ''fail'')" and u = "ascii ''u1''",
      THEN conjunct2, THEN conjunct1, THEN mp, OF pre2]
  have two: "length (posts (snd (priv_send_wechat ?e test_config (?a 2) empty_world))) = 2"
    by (simp add: e)
  from send_wechat_retries [where e = ?ok and cfg = test_config and a = "?a 1"
      and w = empty_world, THEN conjunct1]
  obtain new :: "(pyval \<times> parse_result) list" where
    l: "length new \<le> nat (arg_retry_times (?a 1))" and
    n: "0 < arg_retry_times (?a 1) \<longrightarrow> new \<noteq> []" and
    p: "length (posts (snd (priv_send_wechat ?ok test_config (?a 1) empty_world))) =
        length (posts empty_world) + length (filter (\<lambda>c. \<not> isl (json_dumps ?ok (fst c))) new)"
    by (elim exE conjE) (rule that; assumption)
  from l n have "length new = 1" by (cases new) simp_all
  moreover have "\<And>c. \<not> isl (json_dumps ?ok c)" by (simp add: test_env_def)
  ultimately have one:
    "length (posts (snd (priv_send_wechat ?ok test_config (?a 1) empty_world))) = 1"
    using p e by simp
  from three two one show ?thesis by simp
qed

end
